theory Spec2Isabelle
  imports Complex_Main
begin

section \<open>Numbers\<close>

text \<open>
  Every number of the program is an IEEE double. The model splits them by the way the
  engine uses them.

  \<^item> Counters and the generator's seed (\<open>id\<close>, \<open>lives\<close>, \<open>score\<close>, \<open>nextId\<close>,
    \<open>totalPipesPlanned\<close>, \<open>seed\<close>) hold integers and are of type \<open>int\<close>. Integer
    arithmetic on doubles is exact below \<open>2 ^ 53\<close>; the one computation of the engine that
    leaves this range is the product inside \<open>RNG.hash\<close>, and there the rounding to 53
    significant bits is written out (\<open>roundDouble\<close>), so the model's seeds are the
    program's seeds.
  \<^item> Positions, velocities and times are of type \<open>rat\<close>: the value the expression has
    in exact arithmetic. Rounding of fractional results, overflow and infinities are not
    modelled.
  \<^item> The gap geometry of a pipe and the fields of a spawn specification come from the
    schedule text, where the conversion of a field can give not-a-number or an infinity.
    These numbers are of type \<open>jsnum\<close>: \<open>NaN\<close>, a finite value, or one of the two
    infinities. A finite result is the exact one, unless its magnitude is beyond the
    range of the doubles, where it is the infinity of its sign (\<open>fin\<close>). Arithmetic with
    \<open>NaN\<close> gives \<open>NaN\<close>, and every comparison with \<open>NaN\<close> is false. The two zeros of the
    doubles are not told apart.
\<close>

datatype jsnum = NaN | Fin rat | PosInf | NegInf

text \<open>
  The double for an exact result \<open>v\<close> of an operation, as far as the model goes: a
  magnitude of \<open>2 ^ 1024 - 2 ^ 970\<close> or more rounds to infinity.
\<close>

definition overflowBound :: rat where
  "overflowBound = 2 ^ 1024 - 2 ^ 970"

definition fin :: "rat \<Rightarrow> jsnum" where
  "fin v =
     (if overflowBound \<le> v then PosInf
      else if v \<le> - overflowBound then NegInf
      else Fin v)"

fun jneg :: "jsnum \<Rightarrow> jsnum" where
  "jneg NaN = NaN"
| "jneg (Fin a) = Fin (- a)"
| "jneg PosInf = NegInf"
| "jneg NegInf = PosInf"

fun jadd :: "jsnum \<Rightarrow> jsnum \<Rightarrow> jsnum" where
  "jadd NaN b = NaN"
| "jadd (Fin a) NaN = NaN"
| "jadd (Fin a) (Fin b) = fin (a + b)"
| "jadd (Fin a) PosInf = PosInf"
| "jadd (Fin a) NegInf = NegInf"
| "jadd PosInf NaN = NaN"
| "jadd PosInf (Fin b) = PosInf"
| "jadd PosInf PosInf = PosInf"
| "jadd PosInf NegInf = NaN"
| "jadd NegInf NaN = NaN"
| "jadd NegInf (Fin b) = NegInf"
| "jadd NegInf PosInf = NaN"
| "jadd NegInf NegInf = NegInf"

fun jsub :: "jsnum \<Rightarrow> jsnum \<Rightarrow> jsnum" where
  "jsub NaN b = NaN"
| "jsub (Fin a) NaN = NaN"
| "jsub (Fin a) (Fin b) = fin (a - b)"
| "jsub (Fin a) PosInf = NegInf"
| "jsub (Fin a) NegInf = PosInf"
| "jsub PosInf NaN = NaN"
| "jsub PosInf (Fin b) = PosInf"
| "jsub PosInf PosInf = NaN"
| "jsub PosInf NegInf = PosInf"
| "jsub NegInf NaN = NaN"
| "jsub NegInf (Fin b) = NegInf"
| "jsub NegInf PosInf = NegInf"
| "jsub NegInf NegInf = NaN"

fun jmul :: "jsnum \<Rightarrow> jsnum \<Rightarrow> jsnum" where
  "jmul NaN b = NaN"
| "jmul (Fin a) NaN = NaN"
| "jmul (Fin a) (Fin b) = fin (a * b)"
| "jmul (Fin a) PosInf = (if a = 0 then NaN else if 0 < a then PosInf else NegInf)"
| "jmul (Fin a) NegInf = (if a = 0 then NaN else if 0 < a then NegInf else PosInf)"
| "jmul PosInf NaN = NaN"
| "jmul PosInf (Fin b) = (if b = 0 then NaN else if 0 < b then PosInf else NegInf)"
| "jmul PosInf PosInf = PosInf"
| "jmul PosInf NegInf = NegInf"
| "jmul NegInf NaN = NaN"
| "jmul NegInf (Fin b) = (if b = 0 then NaN else if 0 < b then NegInf else PosInf)"
| "jmul NegInf PosInf = NegInf"
| "jmul NegInf NegInf = PosInf"

text \<open>\<open>a / 2\<close>, the only division applied to a number of this type.\<close>

fun jhalf :: "jsnum \<Rightarrow> jsnum" where
  "jhalf NaN = NaN"
| "jhalf (Fin a) = Fin (a / 2)"
| "jhalf PosInf = PosInf"
| "jhalf NegInf = NegInf"

fun jlt :: "jsnum \<Rightarrow> jsnum \<Rightarrow> bool" where
  "jlt NaN b = False"
| "jlt (Fin a) NaN = False"
| "jlt (Fin a) (Fin b) = (a < b)"
| "jlt (Fin a) PosInf = True"
| "jlt (Fin a) NegInf = False"
| "jlt PosInf b = False"
| "jlt NegInf NaN = False"
| "jlt NegInf (Fin b) = True"
| "jlt NegInf PosInf = True"
| "jlt NegInf NegInf = False"

fun jgt :: "jsnum \<Rightarrow> jsnum \<Rightarrow> bool" where
  "jgt NaN b = False"
| "jgt (Fin a) NaN = False"
| "jgt (Fin a) (Fin b) = (a > b)"
| "jgt (Fin a) PosInf = False"
| "jgt (Fin a) NegInf = True"
| "jgt PosInf NaN = False"
| "jgt PosInf (Fin b) = True"
| "jgt PosInf PosInf = False"
| "jgt PosInf NegInf = True"
| "jgt NegInf b = False"

text \<open>The number of binary digits of a positive integer (0 for the others).\<close>

function bitlen :: "int \<Rightarrow> nat" where
  "bitlen n = (if n \<le> 0 then 0 else Suc (bitlen (n div 2)))"
  by pat_completeness auto
termination
  by (relation "measure nat") auto

declare bitlen.simps [simp del]

text \<open>
  The double nearest to an integer \<open>n\<close>: \<open>n\<close> itself when it has at most 53 binary
  digits, otherwise \<open>n\<close> rounded to 53 significant bits, a tie going to the even
  significand (the rounding of every arithmetic operation on doubles). Exponent overflow
  (\<open>|n| \<ge> 2 ^ 1024\<close>) is not modelled.
\<close>

definition roundDouble :: "int \<Rightarrow> int" where
  "roundDouble n =
     (let a = \<bar>n\<bar>;
          k = bitlen a - 53
      in if k = 0 then n
         else
           let q = a div 2 ^ k;
               r = a mod 2 ^ k;
               h = 2 ^ (k - 1);
               q' = (if h < r \<or> (r = h \<and> odd q) then q + 1 else q)
           in sgn n * (q' * 2 ^ k))"

text \<open>
  The remainder operator \<open>%\<close> on integers: the result has the sign of the dividend.
\<close>

definition jsRem :: "int \<Rightarrow> int \<Rightarrow> int" where
  "jsRem x m = sgn x * (\<bar>x\<bar> mod \<bar>m\<bar>)"

section \<open>Constants\<close>

abbreviation CANVAS_WIDTH :: rat where "CANVAS_WIDTH \<equiv> 600"
abbreviation CANVAS_HEIGHT :: rat where "CANVAS_HEIGHT \<equiv> 400"
abbreviation BIRD_WIDTH :: rat where "BIRD_WIDTH \<equiv> 42"
abbreviation BIRD_HEIGHT :: rat where "BIRD_HEIGHT \<equiv> 30"
abbreviation PIPE_WIDTH :: rat where "PIPE_WIDTH \<equiv> 50"
abbreviation PIPE_SPEED_PX_S :: rat where "PIPE_SPEED_PX_S \<equiv> 150"
abbreviation TICK_RATE_MS :: rat where "TICK_RATE_MS \<equiv> 16"
abbreviation GRAVITY :: rat where "GRAVITY \<equiv> 1200"
abbreviation FLAP_VELOCITY :: rat where "FLAP_VELOCITY \<equiv> - 350"
abbreviation TERMINAL_VEL :: rat where "TERMINAL_VEL \<equiv> 600"
abbreviation BOUNCE_MIN :: rat where "BOUNCE_MIN \<equiv> 220"
abbreviation BOUNCE_MAX :: rat where "BOUNCE_MAX \<equiv> 420"

section \<open>Data types\<close>

record Vec =
  vec_x :: rat
  vec_y :: rat

record Bird =
  pos :: Vec
  velY :: rat

record Pipe =
  pipe_id :: int
  pipe_x :: rat
  gapY :: jsnum
  gapH :: jsnum
  passed :: bool

record SpawnSpec =
  spec_gapY :: jsnum
  spec_gapH :: jsnum
  spec_timeMs :: jsnum

record Hitbox =
  hb_left :: jsnum
  hb_right :: jsnum
  hb_top :: jsnum
  hb_bottom :: jsnum

record CollisionOutcome =
  out_y :: rat
  out_vy :: rat
  out_seed :: int
  collided :: bool

type_synonym Trace = "Vec list"
type_synonym GhostList = "Trace list"

record State =
  timeMs :: rat
  gameEnd :: bool
  bird :: Bird
  pipes :: "Pipe list"
  lives :: int
  score :: int
  nextId :: int
  seed :: int
  totalPipesPlanned :: int
  ghosts :: GhostList
  trace :: Trace

section \<open>The pseudo-random number generator\<close>

abbreviation RNG_m :: int where "RNG_m \<equiv> 2147483648"
abbreviation RNG_a :: int where "RNG_a \<equiv> 1103515245"
abbreviation RNG_c :: int where "RNG_c \<equiv> 12345"

text \<open>
  \<^verbatim>\<open>hash = (seed) => (RNG.a * seed + RNG.c) % RNG.m\<close>: the product and the sum are each
  rounded to a double, the remainder of two doubles is exact.
\<close>

definition hash :: "int \<Rightarrow> int" where
  "hash sd = jsRem (roundDouble (roundDouble (RNG_a * sd) + RNG_c)) RNG_m"

definition scale :: "int \<Rightarrow> rat" where
  "scale h = (2 * of_int h) / (of_int RNG_m - 1) - 1"

record Rand01 =
  nextSeed :: int
  r01 :: rat

definition rand01 :: "int \<Rightarrow> Rand01" where
  "rand01 sd = (let h = hash sd; r = (scale h + 1) / 2 in \<lparr>nextSeed = h, r01 = r\<rparr>)"

record RandInRange =
  rng_nextSeed :: int
  rng_value :: rat

definition randInRange :: "int \<Rightarrow> rat \<Rightarrow> rat \<Rightarrow> RandInRange" where
  "randInRange sd lo hi =
     (let r = rand01 sd
      in \<lparr>rng_nextSeed = nextSeed r, rng_value = lo + r01 r * (hi - lo)\<rparr>)"

section \<open>Collision detection\<close>

definition birdHitbox :: "rat \<Rightarrow> rat \<Rightarrow> Hitbox" where
  "birdHitbox x y =
     \<lparr>hb_left = Fin (x - BIRD_WIDTH / 2),
      hb_right = Fin (x + BIRD_WIDTH / 2),
      hb_top = Fin (y - BIRD_HEIGHT / 2),
      hb_bottom = Fin (y + BIRD_HEIGHT / 2)\<rparr>"

definition pipeTopHitbox :: "Pipe \<Rightarrow> Hitbox" where
  "pipeTopHitbox p =
     \<lparr>hb_left = Fin (pipe_x p),
      hb_right = Fin (pipe_x p + PIPE_WIDTH),
      hb_top = Fin 0,
      hb_bottom = jsub (gapY p) (jhalf (gapH p))\<rparr>"

definition pipeBottomHitbox :: "Pipe \<Rightarrow> Hitbox" where
  "pipeBottomHitbox p =
     \<lparr>hb_left = Fin (pipe_x p),
      hb_right = Fin (pipe_x p + PIPE_WIDTH),
      hb_top = jadd (gapY p) (jhalf (gapH p)),
      hb_bottom = Fin CANVAS_HEIGHT\<rparr>"

definition overlaps :: "Hitbox \<Rightarrow> Hitbox \<Rightarrow> bool" where
  "overlaps a b \<longleftrightarrow>
     jlt (hb_left a) (hb_right b) \<and>
     jgt (hb_right a) (hb_left b) \<and>
     jlt (hb_top a) (hb_bottom b) \<and>
     jgt (hb_bottom a) (hb_top b)"

section \<open>Initial state and reducers\<close>

text \<open>
  \<open>r0\<close> is the value \<^verbatim>\<open>Math.random()\<close> returns when the module is loaded, a number in
  \<open>[0, 1)\<close>.
\<close>

definition initialState :: "rat \<Rightarrow> State" where
  "initialState r0 =
     \<lparr>timeMs = 0,
      gameEnd = False,
      bird = \<lparr>pos = \<lparr>vec_x = CANVAS_WIDTH * (3 / 10), vec_y = CANVAS_HEIGHT / 2\<rparr>, velY = 0\<rparr>,
      pipes = [],
      lives = 3,
      score = 0,
      nextId = 1,
      seed = \<lfloor>r0 * 2147483647\<rfloor>,
      totalPipesPlanned = 0,
      ghosts = [],
      trace = []\<rparr>"

subsection \<open>handleCollisions\<close>

text \<open>The local constants of \<^verbatim>\<open>handleCollisions\<close>, each as a function of the state.\<close>

abbreviation dt :: rat where "dt \<equiv> TICK_RATE_MS / 1000"
abbreviation minY :: rat where "minY \<equiv> BIRD_HEIGHT / 2"
abbreviation maxY :: rat where "maxY \<equiv> CANVAS_HEIGHT - BIRD_HEIGHT / 2"

definition vy :: "State \<Rightarrow> rat" where
  "vy s = max (- TERMINAL_VEL) (min TERMINAL_VEL (velY (bird s) + GRAVITY * dt))"

definition yNextRaw :: "State \<Rightarrow> rat" where
  "yNextRaw s = vec_y (pos (bird s)) + vy s * dt"

definition yClamped :: "State \<Rightarrow> rat" where
  "yClamped s = max minY (min maxY (yNextRaw s))"

definition birdRect :: "State \<Rightarrow> Hitbox" where
  "birdRect s = birdHitbox (vec_x (pos (bird s))) (yClamped s)"

definition hitTop :: "State \<Rightarrow> bool" where
  "hitTop s \<longleftrightarrow> yNextRaw s < minY"

definition hitBottom :: "State \<Rightarrow> bool" where
  "hitBottom s \<longleftrightarrow> yNextRaw s > maxY"

definition hitPipeTop :: "State \<Rightarrow> bool" where
  "hitPipeTop s \<longleftrightarrow> list_ex (\<lambda>p. overlaps (birdRect s) (pipeTopHitbox p)) (pipes s)"

definition hitPipeBottom :: "State \<Rightarrow> bool" where
  "hitPipeBottom s \<longleftrightarrow> list_ex (\<lambda>p. overlaps (birdRect s) (pipeBottomHitbox p)) (pipes s)"

record Bounce =
  b_vy :: rat
  b_seed :: int

definition bounce :: "State \<Rightarrow> rat \<Rightarrow> Bounce" where
  "bounce s dir =
     (let r = randInRange (seed s) BOUNCE_MIN BOUNCE_MAX
      in \<lparr>b_vy = dir * \<bar>rng_value r\<bar>, b_seed = rng_nextSeed r\<rparr>)"

definition stoppedVy :: "State \<Rightarrow> rat" where
  "stoppedVy s =
     (if (yClamped s = minY \<and> vy s < 0) \<or> (yClamped s = maxY \<and> vy s > 0) then 0 else vy s)"

definition handleCollisions :: "State \<Rightarrow> CollisionOutcome" where
  "handleCollisions s =
     (let c = (hitTop s \<or> hitBottom s \<or> hitPipeTop s \<or> hitPipeBottom s)
      in if hitTop s then
           (let b = bounce s 1
            in \<lparr>out_y = minY, out_vy = b_vy b, out_seed = b_seed b, collided = c\<rparr>)
         else if hitBottom s then
           (let b = bounce s (- 1)
            in \<lparr>out_y = maxY, out_vy = b_vy b, out_seed = b_seed b, collided = c\<rparr>)
         else if hitPipeTop s then
           (let b = bounce s 1
            in \<lparr>out_y = min (yClamped s + 1) maxY, out_vy = b_vy b, out_seed = b_seed b,
                collided = c\<rparr>)
         else if hitPipeBottom s then
           (let b = bounce s (- 1)
            in \<lparr>out_y = max (yClamped s - 1) minY, out_vy = b_vy b, out_seed = b_seed b,
                collided = c\<rparr>)
         else \<lparr>out_y = yClamped s, out_vy = stoppedVy s, out_seed = seed s, collided = c\<rparr>)"

subsection \<open>spawnPipe\<close>

definition spawnPipe :: "SpawnSpec \<Rightarrow> State \<Rightarrow> State" where
  "spawnPipe spec s =
     (let p = \<lparr>pipe_id = nextId s, pipe_x = CANVAS_WIDTH, gapY = spec_gapY spec,
               gapH = spec_gapH spec, passed = False\<rparr>
      in s\<lparr>nextId := nextId s + 1, pipes := pipes s @ [p]\<rparr>)"

subsection \<open>tick\<close>

text \<open>The local constants of \<^verbatim>\<open>tick\<close>, each as a function of the state.\<close>

definition moved :: "State \<Rightarrow> Pipe list" where
  "moved s = map (\<lambda>p. p\<lparr>pipe_x := pipe_x p - PIPE_SPEED_PX_S * dt\<rparr>) (pipes s)"

definition kept :: "State \<Rightarrow> Pipe list" where
  "kept s = filter (\<lambda>p. pipe_x p > - PIPE_WIDTH) (moved s)"

definition birdLeft :: "State \<Rightarrow> rat" where
  "birdLeft s = vec_x (pos (bird s)) - BIRD_WIDTH / 2"

definition prevPassed :: "State \<Rightarrow> int set" where
  "prevPassed s = set (map pipe_id (filter passed (pipes s)))"

definition updatedPipes :: "State \<Rightarrow> Pipe list" where
  "updatedPipes s =
     map (\<lambda>p. if passed p \<or> pipe_x p + PIPE_WIDTH < birdLeft s then p\<lparr>passed := True\<rparr> else p)
       (kept s)"

definition newlyPassedCount :: "State \<Rightarrow> nat" where
  "newlyPassedCount s =
     length (filter (\<lambda>p. passed p \<and> pipe_id p \<notin> prevPassed s) (updatedPipes s))"

definition tick :: "State \<Rightarrow> State" where
  "tick s =
     (if gameEnd s then s
      else
        let col = handleCollisions s;
            nextY = out_y col;
            nextVy = out_vy col;
            nextSeed = out_seed col;
            nextLives = (if collided col then max 0 (lives s - 1) else lives s);
            nextScore = score s + int (newlyPassedCount s);
            allPipesSpawned = (nextId s - 1 \<ge> totalPipesPlanned s);
            allPipesCleared = (length (updatedPipes s) = 0);
            nextGameEnd = (nextLives \<le> 0 \<or> (allPipesSpawned \<and> allPipesCleared));
            nextTrace = trace s @ [\<lparr>vec_x = vec_x (pos (bird s)), vec_y = nextY\<rparr>]
        in s\<lparr>timeMs := timeMs s + TICK_RATE_MS,
              bird := \<lparr>pos = \<lparr>vec_x = vec_x (pos (bird s)), vec_y = nextY\<rparr>, velY = nextVy\<rparr>,
              pipes := updatedPipes s,
              seed := nextSeed,
              lives := nextLives,
              gameEnd := nextGameEnd,
              score := nextScore,
              trace := nextTrace,
              ghosts := ghosts s\<rparr>)"

subsection \<open>flapR\<close>

definition flapR :: "State \<Rightarrow> State" where
  "flapR s = s\<lparr>bird := (bird s)\<lparr>velY := FLAP_VELOCITY\<rparr>\<rparr>"

section \<open>The state stream\<close>

text \<open>
  \<^verbatim>\<open>state$\<close> merges three streams of reducers (one \<^verbatim>\<open>tick\<close> per timer interval, one
  \<^verbatim>\<open>flapR\<close> per key press, one \<^verbatim>\<open>spawnPipe(spec)\<close> per row of the schedule) and folds
  them over the start state with \<^verbatim>\<open>scan\<close>, which emits the state after each reducer.
\<close>

datatype Event = TickEv | FlapEv | SpawnEv SpawnSpec

fun reducer :: "Event \<Rightarrow> State \<Rightarrow> State" where
  "reducer TickEv = tick"
| "reducer FlapEv = flapR"
| "reducer (SpawnEv spec) = spawnPipe spec"

fun scan :: "State \<Rightarrow> Event list \<Rightarrow> State list" where
  "scan s [] = []"
| "scan s (e # es) = reducer e s # scan (reducer e s) es"

text \<open>
  The accumulator \<^verbatim>\<open>scan\<close> starts from: \<open>r\<close> is the value of the second
  \<^verbatim>\<open>Math.random()\<close> call, \<open>n\<close> the length of the schedule, \<open>g\<close> the list of past traces.
\<close>

definition startState :: "rat \<Rightarrow> rat \<Rightarrow> nat \<Rightarrow> GhostList \<Rightarrow> State" where
  "startState r0 r n g =
     (initialState r0)\<lparr>seed := \<lfloor>r * 2147483647\<rfloor>, totalPipesPlanned := int n,
       ghosts := g, trace := []\<rparr>"

text \<open>
  The states a run of the engine can pass through: the start state of \<^verbatim>\<open>state$\<close>, for
  any two results of \<^verbatim>\<open>Math.random()\<close>, any schedule length and any list of past
  traces, and every state a reducer makes of such a state.
\<close>

inductive reachable :: "State \<Rightarrow> bool" where
  start: "0 \<le> r0 \<Longrightarrow> r0 < 1 \<Longrightarrow> 0 \<le> r \<Longrightarrow> r < 1 \<Longrightarrow> reachable (startState r0 r n g)"
| step: "reachable s \<Longrightarrow> reachable (reducer e s)"

text \<open>
  The identifiers of a state are in order when the pipes have pairwise distinct
  identifiers, all below \<open>nextId\<close>: \<^verbatim>\<open>spawnPipe\<close> is the only reducer that adds a pipe, and
  it gives the pipe the identifier \<open>nextId\<close> and increments \<open>nextId\<close>.
\<close>

definition idsOk :: "State \<Rightarrow> bool" where
  "idsOk s \<longleftrightarrow> distinct (map pipe_id (pipes s)) \<and> (\<forall>p \<in> set (pipes s). pipe_id p < nextId s)"

section \<open>Parsing the schedule\<close>

text \<open>
  The schedule text is a \<open>string\<close>: a list of 8-bit characters, so the model covers texts
  of code units below 256. \<open>isWhiteSpace\<close> holds of the characters \<^verbatim>\<open>trim\<close> removes in
  that range: tab, line feed, vertical tab, form feed, carriage return, space and
  no-break space.
\<close>

definition isWhiteSpace :: "char \<Rightarrow> bool" where
  "isWhiteSpace c \<longleftrightarrow>
     c \<in> set [CHR 0x09, CHR 0x0A, CHR 0x0B, CHR 0x0C, CHR 0x0D, CHR 0x20, CHR 0xA0]"

definition trim :: "string \<Rightarrow> string" where
  "trim s = rev (dropWhile isWhiteSpace (rev (dropWhile isWhiteSpace s)))"

text \<open>
  \<^verbatim>\<open>split(/\r?\n/)\<close>: a line ends at a line feed, or at a carriage return that a line
  feed follows; any other carriage return is a character of the line.
\<close>

fun splitLines :: "string \<Rightarrow> string list" where
  "splitLines [] = [[]]"
| "splitLines (c # cs) =
     (if c = CHR 0x0A then [] # splitLines cs
      else if c = CHR 0x0D \<and> take 1 cs = [CHR 0x0A] then [] # splitLines (drop 1 cs)
      else (case splitLines cs of [] \<Rightarrow> [[c]] | l # ls \<Rightarrow> (c # l) # ls))"

text \<open>\<^verbatim>\<open>split(",")\<close>.\<close>

fun splitComma :: "string \<Rightarrow> string list" where
  "splitComma [] = [[]]"
| "splitComma (c # cs) =
     (if c = CHR '','' then [] # splitComma cs
      else (case splitComma cs of [] \<Rightarrow> [[c]] | l # ls \<Rightarrow> (c # l) # ls))"

text \<open>
  The array destructuring \<^verbatim>\<open>[yStr, hStr, timeStr] = line.split(",")\<close>: the element at
  an index, \<^verbatim>\<open>undefined\<close> (\<open>None\<close>) past the end.
\<close>

definition field :: "string list \<Rightarrow> nat \<Rightarrow> string option" where
  "field fs i = (if i < length fs then Some (fs ! i) else None)"

text \<open>
  The conversion \<^verbatim>\<open>Number(v)\<close> is part of the language, not of the program. On a string
  it removes the white space at both ends; the empty string converts to \<open>0\<close>, a numeric
  literal to its value, and any other string to \<open>NaN\<close>. The numeric literals are the
  decimal literals (digits with an optional fraction and an optional exponent, or
  \<^verbatim>\<open>Infinity\<close>, with an optional sign) and the unsigned binary, octal and hexadecimal
  integers (\<^verbatim>\<open>0b\<close>, \<^verbatim>\<open>0o\<close>, \<^verbatim>\<open>0x\<close>). The value of a literal is its exact value
  (that value is not rounded to a double, except that a magnitude beyond the range of the
  doubles is an infinity).
\<close>

definition digitValue :: "char \<Rightarrow> nat" where
  "digitValue c =
     (let n = (of_char c :: nat)
      in if 48 \<le> n \<and> n \<le> 57 then n - 48
         else if 97 \<le> n \<and> n \<le> 102 then n - 87
         else if 65 \<le> n \<and> n \<le> 70 then n - 55
         else 0)"

definition isDigitOf :: "nat \<Rightarrow> char \<Rightarrow> bool" where
  "isDigitOf b c \<longleftrightarrow> c \<in> set ''0123456789abcdefABCDEF'' \<and> digitValue c < b"

definition digitsValue :: "nat \<Rightarrow> string \<Rightarrow> nat" where
  "digitsValue b ds = foldl (\<lambda>a c. a * b + digitValue c) 0 ds"

definition signedInteger :: "string \<Rightarrow> int option" where
  "signedInteger s =
     (let neg = (take 1 s = ''-'');
          ds = (if take 1 s = ''+'' \<or> take 1 s = ''-'' then drop 1 s else s)
      in if ds \<noteq> [] \<and> list_all (isDigitOf 10) ds
         then Some (if neg then - int (digitsValue 10 ds) else int (digitsValue 10 ds))
         else None)"

definition exponentPart :: "string \<Rightarrow> int option" where
  "exponentPart s =
     (if s = [] then Some 0
      else if take 1 s = ''e'' \<or> take 1 s = ''E'' then signedInteger (drop 1 s)
      else None)"

definition strUnsignedDecimalLiteral :: "string \<Rightarrow> jsnum option" where
  "strUnsignedDecimalLiteral s =
     (if s = ''Infinity'' then Some PosInf
      else
        let ip = takeWhile (isDigitOf 10) s;
            r1 = dropWhile (isDigitOf 10) s;
            hasDot = (take 1 r1 = ''.'');
            fp = (if hasDot then takeWhile (isDigitOf 10) (drop 1 r1) else []);
            r2 = (if hasDot then dropWhile (isDigitOf 10) (drop 1 r1) else r1)
        in if ip = [] \<and> fp = [] then None
           else (case exponentPart r2 of
                   None \<Rightarrow> None
                 | Some e \<Rightarrow>
                     Some (fin ((of_nat (digitsValue 10 ip) +
                                 of_nat (digitsValue 10 fp) / 10 ^ length fp) * 10 powi e))))"

definition strDecimalLiteral :: "string \<Rightarrow> jsnum option" where
  "strDecimalLiteral s =
     (if take 1 s = ''+'' then strUnsignedDecimalLiteral (drop 1 s)
      else if take 1 s = ''-'' then map_option jneg (strUnsignedDecimalLiteral (drop 1 s))
      else strUnsignedDecimalLiteral s)"

definition nonDecimalIntegerLiteral :: "string \<Rightarrow> jsnum option" where
  "nonDecimalIntegerLiteral s =
     (let p = take 2 s;
          ds = drop 2 s;
          b = (if p = ''0b'' \<or> p = ''0B'' then 2
               else if p = ''0o'' \<or> p = ''0O'' then 8
               else if p = ''0x'' \<or> p = ''0X'' then 16
               else 0 :: nat)
      in if b \<noteq> 0 \<and> ds \<noteq> [] \<and> list_all (isDigitOf b) ds
         then Some (fin (of_nat (digitsValue b ds)))
         else None)"

definition strNumericLiteral :: "string \<Rightarrow> jsnum option" where
  "strNumericLiteral s =
     (case nonDecimalIntegerLiteral s of
        Some v \<Rightarrow> Some v
      | None \<Rightarrow> strDecimalLiteral s)"

definition Number :: "string \<Rightarrow> jsnum" where
  "Number str =
     (let s = trim str
      in if s = [] then Fin 0
         else (case strNumericLiteral s of None \<Rightarrow> NaN | Some v \<Rightarrow> v))"

text \<open>
  \<^verbatim>\<open>Number\<close> applied to an element of the destructured array: \<^verbatim>\<open>Number(undefined)\<close> is
  \<open>NaN\<close>.
\<close>

definition toNumber :: "string option \<Rightarrow> jsnum" where
  "toNumber v = (case v of None \<Rightarrow> NaN | Some str \<Rightarrow> Number str)"

definition parseLine :: "string \<Rightarrow> SpawnSpec" where
  "parseLine line =
     (let fs = splitComma line;
          yStr = field fs 0;
          hStr = field fs 1;
          timeStr = field fs 2;
          y = toNumber yStr;
          h = toNumber hStr
      in \<lparr>spec_gapY = jmul y (Fin CANVAS_HEIGHT),
          spec_gapH = jmul h (Fin CANVAS_HEIGHT),
          spec_timeMs = jmul (toNumber timeStr) (Fin 1000)\<rparr>)"

definition parseMapCsv :: "string \<Rightarrow> SpawnSpec list" where
  "parseMapCsv csv = map parseLine (drop 1 (splitLines (trim csv)))"

section \<open>Example states and inputs\<close>

text \<open>
  A bird in mid-air that the upper part of a pipe has just reached from the right: the
  left edge of the pipe is at \<open>200\<close> and the right edge of the bird's hitbox at \<open>201\<close>;
  the gap of the pipe spans \<open>250\<close> to \<open>350\<close>, the bird's hitbox \<open>85\<close> to \<open>115\<close>.
\<close>

definition insidePipe :: Pipe where
  "insidePipe = \<lparr>pipe_id = 1, pipe_x = 200, gapY = Fin 300, gapH = Fin 100, passed = False\<rparr>"

definition insidePipeState :: State where
  "insidePipeState =
     \<lparr>timeMs = 1600, gameEnd = False,
      bird = \<lparr>pos = \<lparr>vec_x = 180, vec_y = 100\<rparr>, velY = 0\<rparr>,
      pipes = [insidePipe],
      lives = 3, score = 0, nextId = 2, seed = 42, totalPipesPlanned = 3,
      ghosts = [], trace = []\<rparr>"

text \<open>
  A bird rising through the top of the screen next to the lower part of a pipe whose gap
  spans \<open>0\<close> to \<open>10\<close>: the top boundary and the lower part are hit in the same step.
\<close>

definition topAndPipeState :: State where
  "topAndPipeState =
     \<lparr>timeMs = 1600, gameEnd = False,
      bird = \<lparr>pos = \<lparr>vec_x = 180, vec_y = 16\<rparr>, velY = - 300\<rparr>,
      pipes = [\<lparr>pipe_id = 1, pipe_x = 170, gapY = Fin 5, gapH = Fin 10, passed = False\<rparr>],
      lives = 3, score = 0, nextId = 2, seed = 42, totalPipesPlanned = 3,
      ghosts = [], trace = []\<rparr>"

text \<open>
  Five pipes: one whose right edge is on the left edge of the screen, one about to leave
  the screen, one just behind the bird, one over the bird and one ahead of it.
\<close>

definition fivePipesState :: State where
  "fivePipesState =
     \<lparr>timeMs = 8000, gameEnd = False,
      bird = \<lparr>pos = \<lparr>vec_x = 180, vec_y = 200\<rparr>, velY = 0\<rparr>,
      pipes =
        [\<lparr>pipe_id = 1, pipe_x = - 50, gapY = Fin 200, gapH = Fin 100, passed = True\<rparr>,
         \<lparr>pipe_id = 2, pipe_x = - 49, gapY = Fin 200, gapH = Fin 100, passed = True\<rparr>,
         \<lparr>pipe_id = 3, pipe_x = 110, gapY = Fin 200, gapH = Fin 100, passed = False\<rparr>,
         \<lparr>pipe_id = 4, pipe_x = 170, gapY = Fin 200, gapH = Fin 100, passed = False\<rparr>,
         \<lparr>pipe_id = 5, pipe_x = 400, gapY = Fin 200, gapH = Fin 100, passed = False\<rparr>],
      lives = 3, score = 2, nextId = 6, seed = 42, totalPipesPlanned = 6,
      ghosts = [], trace = []\<rparr>"

text \<open>A run that has ended with no lives left while one pipe of three is still to come.\<close>

definition endedState :: State where
  "endedState =
     \<lparr>timeMs = 4000, gameEnd = True,
      bird = \<lparr>pos = \<lparr>vec_x = 180, vec_y = 385\<rparr>, velY = - 300\<rparr>,
      pipes = [\<lparr>pipe_id = 2, pipe_x = 420, gapY = Fin 200, gapH = Fin 100, passed = False\<rparr>],
      lives = 0, score = 1, nextId = 3, seed = 42, totalPipesPlanned = 3,
      ghosts = [], trace = []\<rparr>"

definition lateSpec :: SpawnSpec where
  "lateSpec = \<lparr>spec_gapY = Fin 200, spec_gapH = Fin 100, spec_timeMs = Fin 5000\<rparr>"

text \<open>
  A schedule of a header and two rows, the second with a field that is no number and
  without a third field; and a schedule whose only row has three empty fields.
\<close>

definition sampleCsv :: string where
  "sampleCsv =
     ''gap_y,gap_height,time'' @ [CHR 0x0A] @ ''0.5,0.25,2'' @ [CHR 0x0D, CHR 0x0A] @
     ''abc,0.3'' @ [CHR 0x0A]"

definition blankCsv :: string where
  "blankCsv = ''gap_y,gap_height,time'' @ [CHR 0x0A] @ '',,''"

text \<open>
  Pipes around the bird's left edge at \<open>159\<close>. After the move by \<open>2.4\<close> the right edges
  are at \<open>97.6\<close> (a pipe passed before), \<open>157.6\<close>, exactly \<open>159\<close>, \<open>167.6\<close> (between the
  bird's left edge and its centre at \<open>180\<close>) and \<open>447.6\<close>.
\<close>

definition scoringState :: State where
  "scoringState =
     \<lparr>timeMs = 8000, gameEnd = False,
      bird = \<lparr>pos = \<lparr>vec_x = 180, vec_y = 200\<rparr>, velY = 0\<rparr>,
      pipes =
        [\<lparr>pipe_id = 1, pipe_x = 50, gapY = Fin 200, gapH = Fin 100, passed = True\<rparr>,
         \<lparr>pipe_id = 2, pipe_x = 110, gapY = Fin 200, gapH = Fin 100, passed = False\<rparr>,
         \<lparr>pipe_id = 3, pipe_x = 557 / 5, gapY = Fin 200, gapH = Fin 100, passed = False\<rparr>,
         \<lparr>pipe_id = 4, pipe_x = 120, gapY = Fin 200, gapH = Fin 100, passed = False\<rparr>,
         \<lparr>pipe_id = 5, pipe_x = 400, gapY = Fin 200, gapH = Fin 100, passed = False\<rparr>],
      lives = 3, score = 1, nextId = 6, seed = 42, totalPipesPlanned = 6,
      ghosts = [], trace = []\<rparr>"

text \<open>A list of past traces with one trace of one position.\<close>

definition oneGhost :: GhostList where
  "oneGhost = [[\<lparr>vec_x = 180, vec_y = 200\<rparr>]]"

section \<open>Facts about the numbers\<close>

text \<open>The bound as a numeral, for evaluation.\<close>

lemma overflowBound_numeral [code]:
  "overflowBound =
     179769313486231580793728971405303415079934132710037826936173778980444968292764750946649017977587207096330286416692887910946555547851940402630657488671505820681908902000708383676273854845817711531764475730270069855571366959622842914819860834936475292719074168444365510704342711559699508093042880177904174497792"
  by (simp add: overflowBound_def)

lemma fin_small [simp]: "\<bar>v\<bar> < 2 ^ 1000 \<Longrightarrow> fin v = Fin v"
proof -
  assume a: "\<bar>v\<bar> < 2 ^ 1000"
  have "(2::rat) ^ 1000 \<le> overflowBound" by (simp add: overflowBound_def)
  with a have "v < overflowBound" "- overflowBound < v" by linarith+
  then show ?thesis by (simp add: fin_def)
qed

lemma fin_not_NaN [simp]: "fin v \<noteq> NaN"
  by (simp add: fin_def)

section \<open>Facts about the generator and the bounce\<close>

lemma bitlen_le: "n < 2 ^ k \<Longrightarrow> bitlen n \<le> k"
proof (induction k arbitrary: n)
  case 0
  then show ?case by (simp add: bitlen.simps)
next
  case (Suc k)
  show ?case
  proof (cases "n \<le> 0")
    case True
    then show ?thesis by (simp add: bitlen.simps)
  next
    case False
    from Suc.prems have "n div 2 < 2 ^ k" by simp
    from Suc.IH[OF this] False show ?thesis by (subst bitlen.simps) simp
  qed
qed

lemma roundDouble_small: "\<bar>n\<bar> < 2 ^ 53 \<Longrightarrow> roundDouble n = n"
  using bitlen_le[of "\<bar>n\<bar>" 53] by (simp add: roundDouble_def Let_def)

lemma roundDouble_nonneg: "0 \<le> n \<Longrightarrow> 0 \<le> roundDouble n"
proof -
  assume n: "0 \<le> n"
  have d: "0 \<le> n div 2 ^ k" for k :: nat
    using n by (simp add: pos_imp_zdiv_nonneg_iff)
  show ?thesis
    using n d by (auto simp add: roundDouble_def Let_def sgn_if intro!: mult_nonneg_nonneg)
qed

text \<open>
  \<open>roundDouble\<close> rounds to the nearest multiple of the unit in the last place, with 53
  significant bits, and a tie goes to the even multiple.
\<close>

lemma bitlen_bounds: "0 < n \<Longrightarrow> 2 ^ (bitlen n - 1) \<le> n \<and> n < 2 ^ bitlen n"
proof (induction n rule: bitlen.induct)
  case (1 n)
  show ?case
  proof (cases "n = 1")
    case True
    then show ?thesis by (simp add: bitlen.simps[of 1] bitlen.simps[of 0])
  next
    case False
    with "1.prems" have h: "0 < n div 2" by simp
    from "1.prems" have "\<not> n \<le> 0" by simp
    from "1.IH"[OF this h] have ih: "2 ^ (bitlen (n div 2) - 1) \<le> n div 2" "n div 2 < 2 ^ bitlen (n div 2)"
      by simp_all
    have b: "bitlen n = Suc (bitlen (n div 2))" using "1.prems" by (subst bitlen.simps) simp
    have pos: "0 < bitlen (n div 2)" using h by (subst bitlen.simps) simp
    then have e: "(2::int) ^ bitlen (n div 2) = 2 * 2 ^ (bitlen (n div 2) - 1)"
      by (cases "bitlen (n div 2)") simp_all
    from ih e show ?thesis unfolding b by simp linarith
  qed
qed

lemma roundDouble_nearest:
  assumes "53 < bitlen \<bar>n\<bar>"
  shows "2 ^ (bitlen \<bar>n\<bar> - 53) dvd roundDouble n \<and>
         2 * \<bar>roundDouble n - n\<bar> \<le> 2 ^ (bitlen \<bar>n\<bar> - 53) \<and>
         \<bar>roundDouble n\<bar> \<le> 2 ^ bitlen \<bar>n\<bar>"
proof -
  define a where "a = \<bar>n\<bar>"
  define k where "k = bitlen a - 53"
  define q where "q = a div 2 ^ k"
  define r where "r = a mod 2 ^ k"
  define q' where "q' = (if 2 ^ (k - 1) < r \<or> (r = 2 ^ (k - 1) \<and> odd q) then q + 1 else q)"
  from assms have k: "0 < k" by (simp add: k_def a_def)
  then have p: "(2::int) ^ k = 2 * 2 ^ (k - 1)" by (cases k) simp_all
  have rd: "roundDouble n = sgn n * (q' * 2 ^ k)"
    using k by (simp add: roundDouble_def Let_def a_def k_def q_def r_def q'_def)
  have n: "n = sgn n * a" by (simp add: a_def sgn_if)
  have a: "a = q * 2 ^ k + r" unfolding q_def r_def by (rule div_mult_mod_eq[symmetric])
  have r: "0 \<le> r" "r < 2 ^ k" by (simp_all add: r_def)
  have apos: "0 < a" using assms by (cases "a = 0") (simp_all add: a_def bitlen.simps[of 0])
  from bitlen_bounds[OF apos] have "a < 2 ^ (53 + k)" using k by (simp add: k_def)
  then have ub: "a < 2 ^ 53 * 2 ^ k" by (simp add: power_add)
  have q53: "q < 2 ^ 53"
  proof (rule ccontr)
    assume "\<not> q < 2 ^ 53"
    then have "2 ^ 53 \<le> q" by simp
    then have "2 ^ 53 * 2 ^ k \<le> q * (2::int) ^ k" by (intro mult_right_mono) simp_all
    with a r(1) ub show False by linarith
  qed
  have qn: "0 \<le> q" using apos by (simp add: q_def pos_imp_zdiv_nonneg_iff)
  have q'b: "0 \<le> q'" "q' \<le> 2 ^ 53" using qn q53 by (auto simp add: q'_def)
  have d: "2 ^ k dvd roundDouble n" by (simp add: rd)
  have "q' * 2 ^ k - a = (q' - q) * 2 ^ k - r" by (simp add: a algebra_simps)
  then have "2 * \<bar>q' * 2 ^ k - a\<bar> \<le> 2 ^ k"
    using r p by (auto simp add: q'_def)
  moreover have "roundDouble n - n = sgn n * (q' * 2 ^ k - a)"
    by (subst n) (simp add: rd algebra_simps)
  ultimately have e: "2 * \<bar>roundDouble n - n\<bar> \<le> 2 ^ k"
    by (simp add: abs_mult sgn_if split: if_splits)
  have "\<bar>roundDouble n\<bar> = q' * 2 ^ k" using q'b apos by (auto simp add: rd abs_mult a_def sgn_if)
  also have "\<dots> \<le> 2 ^ 53 * 2 ^ k" using q'b by (intro mult_right_mono) simp_all
  also have "\<dots> = 2 ^ (53 + k)" by (simp only: power_add)
  also have "53 + k = bitlen a" using assms by (simp add: k_def a_def)
  finally have u: "\<bar>roundDouble n\<bar> \<le> 2 ^ bitlen a" .
  from d e u show ?thesis by (simp add: k_def a_def)
qed

lemma roundDouble_tie_even:
  assumes "53 < bitlen \<bar>n\<bar>" and "2 * \<bar>roundDouble n - n\<bar> = 2 ^ (bitlen \<bar>n\<bar> - 53)"
  shows "even (roundDouble n div 2 ^ (bitlen \<bar>n\<bar> - 53))"
proof -
  define a where "a = \<bar>n\<bar>"
  define k where "k = bitlen a - 53"
  define q where "q = a div 2 ^ k"
  define r where "r = a mod 2 ^ k"
  define q' where "q' = (if 2 ^ (k - 1) < r \<or> (r = 2 ^ (k - 1) \<and> odd q) then q + 1 else q)"
  from assms(1) have k: "0 < k" by (simp add: k_def a_def)
  then have p: "(2::int) ^ k = 2 * 2 ^ (k - 1)" by (cases k) simp_all
  have rd: "roundDouble n = sgn n * (q' * 2 ^ k)"
    using k by (simp add: roundDouble_def Let_def a_def k_def q_def r_def q'_def)
  have n: "n = sgn n * a" by (simp add: a_def sgn_if)
  have a: "a = q * 2 ^ k + r" unfolding q_def r_def by (rule div_mult_mod_eq[symmetric])
  have r: "0 \<le> r" "r < 2 ^ k" by (simp_all add: r_def)
  have "roundDouble n - n = sgn n * (q' * 2 ^ k - a)"
    by (subst n) (simp add: rd algebra_simps)
  moreover have "n \<noteq> 0" using assms(1) by (auto simp add: bitlen.simps[of 0])
  ultimately have "\<bar>roundDouble n - n\<bar> = \<bar>q' * 2 ^ k - a\<bar>"
    by (simp add: abs_mult sgn_if)
  with assms(2) have t: "2 * \<bar>q' * 2 ^ k - a\<bar> = 2 ^ k" by (simp add: k_def a_def)
  have "q' * 2 ^ k - a = (q' - q) * 2 ^ k - r" by (simp add: a algebra_simps)
  with t r p have "r = 2 ^ (k - 1)" by (auto simp add: q'_def split: if_splits)
  then have "even q'" by (simp add: q'_def)
  moreover have "roundDouble n div 2 ^ k = sgn n * q'" by (simp add: rd)
  ultimately show ?thesis using \<open>n \<noteq> 0\<close> by (simp add: k_def a_def sgn_if)
qed

lemma roundDouble_examples:
  "roundDouble (2 ^ 53 + 1) = 2 ^ 53 \<and> roundDouble (2 ^ 53 + 3) = 2 ^ 53 + 4 \<and>
   roundDouble (2 ^ 54 + 5) = 2 ^ 54 + 4 \<and> roundDouble (2 ^ 54 + 6) = 2 ^ 54 + 8 \<and>
   roundDouble (- (2 ^ 54 + 5)) = - (2 ^ 54 + 4) \<and>
   roundDouble (1103515245 * 2147483646) = 2369780941749183488"
  by code_simp

lemma jsRem_abs_less: "0 < m \<Longrightarrow> \<bar>jsRem x m\<bar> < m"
  by (simp add: jsRem_def abs_mult sgn_if)

lemma jsRem_nonneg: "0 \<le> x \<Longrightarrow> 0 < m \<Longrightarrow> jsRem x m = x mod m"
  by (simp add: jsRem_def sgn_if)

lemma hash_abs_less: "\<bar>hash sd\<bar> < RNG_m"
  unfolding hash_def by (rule jsRem_abs_less) simp

lemma hash_eq_mod:
  "0 \<le> sd \<Longrightarrow> hash sd = roundDouble (roundDouble (RNG_a * sd) + RNG_c) mod RNG_m"
proof -
  assume "0 \<le> sd"
  then have "0 \<le> roundDouble (RNG_a * sd)" by (intro roundDouble_nonneg) simp
  then have "0 \<le> roundDouble (roundDouble (RNG_a * sd) + RNG_c)" by (intro roundDouble_nonneg) simp
  then show ?thesis by (simp add: hash_def jsRem_nonneg)
qed

lemma hash_nonneg: "0 \<le> sd \<Longrightarrow> 0 \<le> hash sd"
  by (simp add: hash_eq_mod)

lemma hash_exact:
  assumes "0 \<le> sd" and "RNG_a * sd + RNG_c < 2 ^ 53"
  shows "hash sd = (RNG_a * sd + RNG_c) mod RNG_m"
proof -
  from assms have 1: "roundDouble (RNG_a * sd) = RNG_a * sd"
    by (intro roundDouble_small) simp
  from assms have 2: "roundDouble (RNG_a * sd + RNG_c) = RNG_a * sd + RNG_c"
    by (intro roundDouble_small) simp
  show ?thesis using assms(1) by (simp add: hash_eq_mod 1 2)
qed

lemma r01_eq: "r01 (rand01 sd) = of_int (hash sd) / 2147483647"
  by (simp add: rand01_def Let_def scale_def)

lemma r01_abs_le: "\<bar>r01 (rand01 sd)\<bar> \<le> 1"
proof -
  have "\<bar>hash sd\<bar> \<le> 2147483647" using hash_abs_less[of sd] by simp
  then have "\<bar>of_int (hash sd) :: rat\<bar> \<le> 2147483647"
    by (metis of_int_abs of_int_le_iff of_int_numeral)
  then show ?thesis by (simp add: r01_eq)
qed

lemma r01_nonneg: "0 \<le> sd \<Longrightarrow> 0 \<le> r01 (rand01 sd)"
  using hash_nonneg[of sd] by (simp add: r01_eq)

lemma r01_le_1: "r01 (rand01 sd) \<le> 1"
  using r01_abs_le[of sd] by simp

lemma randInRange_seed: "rng_nextSeed (randInRange sd lo hi) = hash sd"
  by (simp add: randInRange_def rand01_def Let_def)

lemma bounce_value_bounds:
  "20 \<le> rng_value (randInRange sd BOUNCE_MIN BOUNCE_MAX) \<and>
   rng_value (randInRange sd BOUNCE_MIN BOUNCE_MAX) \<le> 420"
  using r01_abs_le[of sd] by (simp add: randInRange_def Let_def abs_le_iff)

lemma bounce_value_range:
  "0 \<le> sd \<Longrightarrow>
   BOUNCE_MIN \<le> rng_value (randInRange sd BOUNCE_MIN BOUNCE_MAX) \<and>
   rng_value (randInRange sd BOUNCE_MIN BOUNCE_MAX) \<le> BOUNCE_MAX"
  using r01_nonneg[of sd] r01_le_1[of sd] by (simp add: randInRange_def Let_def)

lemma bounce_seed: "b_seed (bounce s d) = hash (seed s)"
  by (simp add: bounce_def Let_def randInRange_seed)

lemma bounce_vy_up: "b_vy (bounce s 1) = \<bar>rng_value (randInRange (seed s) BOUNCE_MIN BOUNCE_MAX)\<bar>"
  by (simp add: bounce_def Let_def)

lemma bounce_vy_down:
  "b_vy (bounce s (- 1)) = - \<bar>rng_value (randInRange (seed s) BOUNCE_MIN BOUNCE_MAX)\<bar>"
  by (simp add: bounce_def Let_def)

lemma bounce_abs_le: "d = 1 \<or> d = - 1 \<Longrightarrow> \<bar>b_vy (bounce s d)\<bar> \<le> 420"
  using bounce_value_bounds[of "seed s"] by (auto simp add: bounce_def Let_def)

section \<open>The pipes across a tick; invariants of the reachable states\<close>

lemma tick_ended: "gameEnd s \<Longrightarrow> tick s = s"
  by (simp add: tick_def)

lemma collided_iff:
  "collided (handleCollisions s) \<longleftrightarrow> hitTop s \<or> hitBottom s \<or> hitPipeTop s \<or> hitPipeBottom s"
  by (simp add: handleCollisions_def Let_def)

lemma out_seed_eq:
  "out_seed (handleCollisions s) =
     (if hitTop s \<or> hitBottom s \<or> hitPipeTop s \<or> hitPipeBottom s then hash (seed s) else seed s)"
  by (simp add: handleCollisions_def Let_def bounce_seed)

lemma tick_seed: "\<not> gameEnd s \<Longrightarrow> seed (tick s) = out_seed (handleCollisions s)"
  by (simp add: tick_def Let_def)

lemma tick_pipes: "\<not> gameEnd s \<Longrightarrow> pipes (tick s) = updatedPipes s"
  by (simp add: tick_def Let_def)

lemma kept_eq:
  "kept s =
     map (\<lambda>p. p\<lparr>pipe_x := pipe_x p - PIPE_SPEED_PX_S * dt\<rparr>)
       (filter (\<lambda>p. 0 < pipe_x p - PIPE_SPEED_PX_S * dt + PIPE_WIDTH) (pipes s))"
proof -
  have "kept s =
     map (\<lambda>p. p\<lparr>pipe_x := pipe_x p - PIPE_SPEED_PX_S * dt\<rparr>)
       (filter (\<lambda>p. - PIPE_WIDTH < pipe_x p - PIPE_SPEED_PX_S * dt) (pipes s))"
    by (simp add: kept_def moved_def filter_map comp_def)
  also have "filter (\<lambda>p. - PIPE_WIDTH < pipe_x p - PIPE_SPEED_PX_S * dt) (pipes s) =
             filter (\<lambda>p. 0 < pipe_x p - PIPE_SPEED_PX_S * dt + PIPE_WIDTH) (pipes s)"
    by (rule filter_cong) auto
  finally show ?thesis .
qed

lemma updatedPipes_eq:
  "updatedPipes s =
     map (\<lambda>p. p\<lparr>passed := passed p \<or> pipe_x p + PIPE_WIDTH < birdLeft s\<rparr>) (kept s)"
  unfolding updatedPipes_def by (rule map_cong) auto

lemma updatedPipes_ids: "map pipe_id (updatedPipes s) = map pipe_id (kept s)"
  by (simp add: updatedPipes_eq comp_def)

lemma kept_ids:
  "map pipe_id (kept s) =
     map pipe_id (filter (\<lambda>p. 0 < pipe_x p - PIPE_SPEED_PX_S * dt + PIPE_WIDTH) (pipes s))"
  by (simp add: kept_eq comp_def)

lemma tick_pipe_ids:
  "\<not> gameEnd s \<Longrightarrow>
   map pipe_id (pipes (tick s)) =
     map pipe_id (filter (\<lambda>p. 0 < pipe_x p - PIPE_SPEED_PX_S * dt + PIPE_WIDTH) (pipes s))"
  by (simp add: tick_pipes updatedPipes_ids kept_ids)

lemma tick_nextId: "nextId (tick s) = nextId s"
  by (simp add: tick_def Let_def)

lemma tick_pipes_eq:
  "\<not> gameEnd s \<Longrightarrow>
   pipes (tick s) =
     map (\<lambda>p. p\<lparr>pipe_x := pipe_x p - PIPE_SPEED_PX_S * dt,
                 passed := passed p \<or> pipe_x p - PIPE_SPEED_PX_S * dt + PIPE_WIDTH < birdLeft s\<rparr>)
       (filter (\<lambda>p. 0 < pipe_x p - PIPE_SPEED_PX_S * dt + PIPE_WIDTH) (pipes s))"
  by (simp add: tick_pipes updatedPipes_eq kept_eq comp_def)

lemma tick_idsOk: "idsOk s \<Longrightarrow> idsOk (tick s)"
proof (cases "gameEnd s")
  case True
  assume "idsOk s"
  with True show ?thesis by (simp add: tick_def)
next
  case False
  assume ok: "idsOk s"
  have d: "distinct (map pipe_id (pipes (tick s)))"
    using ok False by (simp add: tick_pipe_ids idsOk_def distinct_map_filter)
  have "pipe_id ` set (pipes (tick s)) \<subseteq> pipe_id ` set (pipes s)"
    using tick_pipe_ids[OF False] by (metis (no_types, lifting) filter_is_subset image_mono set_map)
  with ok have "\<forall>p \<in> set (pipes (tick s)). pipe_id p < nextId (tick s)"
    by (auto simp add: idsOk_def tick_nextId)
  with d show ?thesis by (simp add: idsOk_def)
qed

lemma spawnPipe_idsOk: "idsOk s \<Longrightarrow> idsOk (spawnPipe spec s)"
  by (auto simp add: idsOk_def spawnPipe_def Let_def)

lemma flapR_idsOk: "idsOk s \<Longrightarrow> idsOk (flapR s)"
  by (simp add: idsOk_def flapR_def)

lemma reachable_idsOk: "reachable s \<Longrightarrow> idsOk s"
proof (induction rule: reachable.induct)
  case (start r0 r n g)
  show ?case by (simp add: idsOk_def startState_def initialState_def)
next
  case (step s e)
  then show ?case
    by (cases e) (simp_all add: tick_idsOk spawnPipe_idsOk flapR_idsOk)
qed

lemma reachable_distinct_ids: "reachable s \<Longrightarrow> distinct (map pipe_id (pipes s))"
  using reachable_idsOk[of s] by (simp add: idsOk_def)

lemma reachable_seed_nonneg: "reachable s \<Longrightarrow> 0 \<le> seed s"
proof (induction rule: reachable.induct)
  case (start r0 r n g)
  then show ?case by (simp add: startState_def)
next
  case (step s e)
  show ?case
  proof (cases e)
    case TickEv
    with step.IH show ?thesis
      by (cases "gameEnd s") (simp_all add: tick_ended tick_seed out_seed_eq hash_nonneg)
  next
    case FlapEv
    with step.IH show ?thesis by (simp add: flapR_def)
  next
    case (SpawnEv spec)
    with step.IH show ?thesis by (simp add: spawnPipe_def Let_def)
  qed
qed

lemma birdLeft_reducer: "birdLeft (reducer e s) = birdLeft s"
  by (cases e; cases "gameEnd s") (simp_all add: birdLeft_def tick_def Let_def flapR_def spawnPipe_def)

lemma tick_passed_iff:
  assumes "\<forall>p \<in> set (pipes s). passed p \<longrightarrow> pipe_x p + PIPE_WIDTH < birdLeft s"
    and "\<not> gameEnd s"
  shows "\<forall>q \<in> set (pipes (tick s)). passed q \<longleftrightarrow> pipe_x q + PIPE_WIDTH < birdLeft s"
proof
  fix q assume "q \<in> set (pipes (tick s))"
  then have "q \<in> (\<lambda>p. p\<lparr>pipe_x := pipe_x p - PIPE_SPEED_PX_S * dt,
               passed := passed p \<or> pipe_x p - PIPE_SPEED_PX_S * dt + PIPE_WIDTH < birdLeft s\<rparr>) `
        {p \<in> set (pipes s). 0 < pipe_x p - PIPE_SPEED_PX_S * dt + PIPE_WIDTH}"
    unfolding tick_pipes_eq[OF assms(2)] by simp
  then obtain p where p: "p \<in> set (pipes s)"
    "q = p\<lparr>pipe_x := pipe_x p - PIPE_SPEED_PX_S * dt,
               passed := passed p \<or> pipe_x p - PIPE_SPEED_PX_S * dt + PIPE_WIDTH < birdLeft s\<rparr>"
    by blast
  from assms(1) p(1) have "passed p \<longrightarrow> pipe_x p + PIPE_WIDTH < birdLeft s" by blast
  then show "passed q \<longleftrightarrow> pipe_x q + PIPE_WIDTH < birdLeft s"
    by (auto simp add: p(2))
qed

lemma reachable_passed_behind:
  "reachable s \<Longrightarrow> \<forall>p \<in> set (pipes s). passed p \<longrightarrow> pipe_x p + PIPE_WIDTH < birdLeft s"
proof (induction rule: reachable.induct)
  case (start r0 r n g)
  show ?case by (simp add: startState_def initialState_def)
next
  case (step s e)
  show ?case
  proof (cases e)
    case TickEv
    show ?thesis
    proof (cases "gameEnd s")
      case True
      with step.IH TickEv show ?thesis by (simp add: tick_ended)
    next
      case False
      from tick_passed_iff[OF step.IH False] birdLeft_reducer[of TickEv s] TickEv
      show ?thesis by simp
    qed
  next
    case FlapEv
    with step.IH show ?thesis by (simp add: flapR_def birdLeft_def)
  next
    case (SpawnEv spec)
    with step.IH show ?thesis by (auto simp add: spawnPipe_def Let_def birdLeft_def)
  qed
qed

lemma reachable_tick_passed_iff:
  assumes "reachable s" and "\<not> gameEnd s"
  shows "\<forall>q \<in> set (pipes (tick s)). passed q \<longleftrightarrow> pipe_x q + PIPE_WIDTH < birdLeft s"
  using tick_passed_iff[OF reachable_passed_behind[OF assms(1)] assms(2)] .

section \<open>Velocity bound\<close>

lemma vy_abs_le: "\<bar>vy s\<bar> \<le> TERMINAL_VEL"
  by (simp add: vy_def abs_le_iff)

lemma stoppedVy_abs_le: "\<bar>stoppedVy s\<bar> \<le> TERMINAL_VEL"
  using vy_abs_le[of s] by (simp add: stoppedVy_def)

lemma out_vy_abs_le: "\<bar>out_vy (handleCollisions s)\<bar> \<le> TERMINAL_VEL"
  using bounce_abs_le[of 1 s] bounce_abs_le[of "- 1" s] stoppedVy_abs_le[of s]
  by (simp add: handleCollisions_def Let_def)

lemma tick_velY: "\<not> gameEnd s \<Longrightarrow> velY (bird (tick s)) = out_vy (handleCollisions s)"
  by (simp add: tick_def Let_def)

lemma reducer_velY_bound:
  "\<bar>velY (bird s)\<bar> \<le> TERMINAL_VEL \<Longrightarrow> \<bar>velY (bird (reducer e s))\<bar> \<le> TERMINAL_VEL"
proof (cases e)
  case TickEv
  assume "\<bar>velY (bird s)\<bar> \<le> TERMINAL_VEL"
  then show ?thesis using TickEv out_vy_abs_le[of s]
    by (cases "gameEnd s") (simp_all add: tick_velY, simp add: tick_def)
next
  case FlapEv
  then show ?thesis by (simp add: flapR_def)
next
  case (SpawnEv spec)
  assume "\<bar>velY (bird s)\<bar> \<le> TERMINAL_VEL"
  then show ?thesis using SpawnEv by (simp add: spawnPipe_def Let_def)
qed

text \<open>
  Claim C3 (velocity bound). In every state reachable from the start state by ticks,
  flaps and spawns, the absolute value of the bird's vertical velocity is at most
  \<open>TERMINAL_VEL = 600\<close>. A tick leaves either the clamped velocity, zero, or a bounce of
  magnitude at most \<open>420\<close>; a flap sets \<open>- 350\<close>; a spawn leaves the bird alone.
\<close>

theorem velocity_bound: "reachable s \<Longrightarrow> \<bar>velY (bird s)\<bar> \<le> TERMINAL_VEL"
proof (induction rule: reachable.induct)
  case (start r0 r n g)
  show ?case by (simp add: startState_def initialState_def)
next
  case (step s e)
  from step.IH show ?case by (rule reducer_velY_bound)
qed

lemma velocity_example:
  "velY (bird (reducer TickEv (reducer FlapEv (startState 0 (1 / 2) 3 [])))) = - (1654 / 5)"
  by code_simp

text \<open>
  The bound at the state after a flap and a tick, where the velocity is \<open>- 330.8\<close>.
\<close>

theorem velocity_bound_witness:
  "reachable (reducer TickEv (reducer FlapEv (startState 0 (1 / 2) 3 []))) \<and>
   velY (bird (reducer TickEv (reducer FlapEv (startState 0 (1 / 2) 3 [])))) = - (1654 / 5) \<and>
   \<bar>velY (bird (reducer TickEv (reducer FlapEv (startState 0 (1 / 2) 3 []))))\<bar> \<le> TERMINAL_VEL"
proof -
  have r: "reachable (reducer TickEv (reducer FlapEv (startState 0 (1 / 2) 3 [])))"
    by (intro reachable.step reachable.start) simp_all
  from velocity_bound[OF r] r velocity_example show ?thesis by blast
qed

section \<open>The ended state\<close>

lemma flapR_gameEnd: "gameEnd (flapR s) = gameEnd s"
  by (simp add: flapR_def)

lemma spawnPipe_gameEnd: "gameEnd (spawnPipe spec s) = gameEnd s"
  by (simp add: spawnPipe_def Let_def)

text \<open>
  Claim C2 (terminal fixed point). The claim is that each of the three reducers returns
  a state equal to its input once \<open>gameEnd\<close> holds. \<^verbatim>\<open>tick\<close> does (\<open>tick_ended\<close>): it
  starts with the guard \<^verbatim>\<open>if (s.gameEnd) return s\<close>. \<^verbatim>\<open>flapR\<close> and \<^verbatim>\<open>spawnPipe\<close> have no
  such guard. On the ended state \<open>endedState\<close>, \<^verbatim>\<open>flapR\<close> changes the bird's velocity
  from \<open>- 300\<close> to \<open>- 350\<close>, and \<^verbatim>\<open>spawnPipe\<close> appends a second pipe and raises \<open>nextId\<close>
  from \<open>3\<close> to \<open>4\<close>.
\<close>

theorem ended_state_not_fixed:
  "gameEnd endedState \<and> tick endedState = endedState \<and>
   velY (bird endedState) = - 300 \<and> velY (bird (flapR endedState)) = FLAP_VELOCITY \<and>
   flapR endedState \<noteq> endedState \<and>
   length (pipes endedState) = 1 \<and> length (pipes (spawnPipe lateSpec endedState)) = 2 \<and>
   nextId endedState = 3 \<and> nextId (spawnPipe lateSpec endedState) = 4 \<and>
   spawnPipe lateSpec endedState \<noteq> endedState"
proof -
  have e: "gameEnd endedState" by (simp add: endedState_def)
  have t: "tick endedState = endedState" using e by (simp add: tick_def)
  have v: "velY (bird endedState) = - 300" by (simp add: endedState_def)
  have f: "velY (bird (flapR endedState)) = FLAP_VELOCITY" by (simp add: flapR_def)
  have fn: "flapR endedState \<noteq> endedState"
  proof
    assume "flapR endedState = endedState"
    then have "velY (bird (flapR endedState)) = velY (bird endedState)" by simp
    with v f show False by simp
  qed
  have l1: "length (pipes endedState) = 1" by (simp add: endedState_def)
  have l2: "length (pipes (spawnPipe lateSpec endedState)) = 2"
    by (simp add: spawnPipe_def Let_def endedState_def)
  have n1: "nextId endedState = 3" by (simp add: endedState_def)
  have n2: "nextId (spawnPipe lateSpec endedState) = 4"
    by (simp add: spawnPipe_def Let_def endedState_def)
  have sn: "spawnPipe lateSpec endedState \<noteq> endedState"
  proof
    assume "spawnPipe lateSpec endedState = endedState"
    then have "nextId (spawnPipe lateSpec endedState) = nextId endedState" by simp
    with n1 n2 show False by simp
  qed
  from e t v f fn l1 l2 n1 n2 sn show ?thesis by blast
qed

section \<open>The seed across a tick\<close>

lemma hash_42: "hash 42 = 1250496027"
  by code_simp

lemma insidePipe_hits:
  "\<not> hitTop insidePipeState \<and> \<not> hitBottom insidePipeState \<and> hitPipeTop insidePipeState \<and>
   \<not> hitPipeBottom insidePipeState"
  by code_simp

lemma fivePipes_hits:
  "\<not> hitTop fivePipesState \<and> \<not> hitBottom fivePipesState \<and> \<not> hitPipeTop fivePipesState \<and>
   \<not> hitPipeBottom fivePipesState"
  by code_simp

text \<open>
  Claim C10 (the generator advances only on collision). For a state that has not ended:
  if none of the four collision conditions holds in a tick, the seed after the tick is
  the seed before it; if one holds, the seed after the tick is \<open>hash\<close> of the seed
  before it, one step of the generator.
\<close>

theorem seed_advances_only_on_collision:
  assumes "\<not> gameEnd s"
  shows "(\<not> (hitTop s \<or> hitBottom s \<or> hitPipeTop s \<or> hitPipeBottom s) \<longrightarrow>
            seed (tick s) = seed s) \<and>
         (hitTop s \<or> hitBottom s \<or> hitPipeTop s \<or> hitPipeBottom s \<longrightarrow>
            seed (tick s) = hash (seed s))"
  using assms by (simp add: tick_seed out_seed_eq)

text \<open>
  Both cases at a concrete state: no collision in \<open>fivePipesState\<close>, where the seed stays
  \<open>42\<close>, and a collision with a pipe in \<open>insidePipeState\<close>, where the seed \<open>42\<close> becomes
  \<open>hash 42 = 1250496027\<close>.
\<close>

theorem seed_advances_only_on_collision_witness:
  "\<not> gameEnd fivePipesState \<and>
   \<not> (hitTop fivePipesState \<or> hitBottom fivePipesState \<or> hitPipeTop fivePipesState \<or>
      hitPipeBottom fivePipesState) \<and>
   seed (tick fivePipesState) = 42 \<and>
   \<not> gameEnd insidePipeState \<and> hitPipeTop insidePipeState \<and>
   seed insidePipeState = 42 \<and> seed (tick insidePipeState) = 1250496027"
proof -
  have g1: "\<not> gameEnd fivePipesState" by (simp add: fivePipesState_def)
  have g2: "\<not> gameEnd insidePipeState" by (simp add: insidePipeState_def)
  have s1: "seed fivePipesState = 42" by (simp add: fivePipesState_def)
  have s2: "seed insidePipeState = 42" by (simp add: insidePipeState_def)
  from seed_advances_only_on_collision[OF g1] fivePipes_hits s1
  have a: "seed (tick fivePipesState) = 42" by simp
  from seed_advances_only_on_collision[OF g2] insidePipe_hits s2 hash_42
  have b: "seed (tick insidePipeState) = 1250496027" by simp
  from g1 g2 s2 a b fivePipes_hits insidePipe_hits show ?thesis by blast
qed

section \<open>Collision priority\<close>

text \<open>
  Claim C4 (collision priority). The flag \<open>collided\<close> of a physics step is the
  disjunction of the four conditions. Position and velocity come from the first condition
  that holds in the order top boundary, bottom boundary, upper part of a pipe, lower part
  of a pipe, and from plain motion when none holds.
\<close>

theorem collision_priority:
  "collided (handleCollisions s) = (hitTop s \<or> hitBottom s \<or> hitPipeTop s \<or> hitPipeBottom s) \<and>
   (hitTop s \<longrightarrow>
      out_y (handleCollisions s) = minY \<and> out_vy (handleCollisions s) = b_vy (bounce s 1)) \<and>
   (\<not> hitTop s \<and> hitBottom s \<longrightarrow>
      out_y (handleCollisions s) = maxY \<and> out_vy (handleCollisions s) = b_vy (bounce s (- 1))) \<and>
   (\<not> hitTop s \<and> \<not> hitBottom s \<and> hitPipeTop s \<longrightarrow>
      out_y (handleCollisions s) = min (yClamped s + 1) maxY \<and>
      out_vy (handleCollisions s) = b_vy (bounce s 1)) \<and>
   (\<not> hitTop s \<and> \<not> hitBottom s \<and> \<not> hitPipeTop s \<and> hitPipeBottom s \<longrightarrow>
      out_y (handleCollisions s) = max (yClamped s - 1) minY \<and>
      out_vy (handleCollisions s) = b_vy (bounce s (- 1))) \<and>
   (\<not> hitTop s \<and> \<not> hitBottom s \<and> \<not> hitPipeTop s \<and> \<not> hitPipeBottom s \<longrightarrow>
      out_y (handleCollisions s) = yClamped s \<and> out_vy (handleCollisions s) = stoppedVy s)"
  by (simp add: handleCollisions_def Let_def)

lemma topAndPipe_hits:
  "hitTop topAndPipeState \<and> \<not> hitBottom topAndPipeState \<and> \<not> hitPipeTop topAndPipeState \<and>
   hitPipeBottom topAndPipeState"
  by code_simp

lemma topAndPipe_bounces:
  "b_vy (bounce topAndPipeState 1) = 722545607740 / 2147483647 \<and>
   b_vy (bounce topAndPipeState (- 1)) = - (722545607740 / 2147483647)"
  by code_simp

text \<open>
  In \<open>topAndPipeState\<close> the top boundary and the lower part of a pipe are hit in the
  same step: the flag is set and the outcome is the one of the top boundary, the
  position \<open>minY\<close> and a downward velocity.
\<close>

theorem collision_priority_witness:
  "hitTop topAndPipeState \<and> hitPipeBottom topAndPipeState \<and>
   collided (handleCollisions topAndPipeState) \<and>
   out_y (handleCollisions topAndPipeState) = minY \<and>
   out_vy (handleCollisions topAndPipeState) = 722545607740 / 2147483647"
  using collision_priority[of topAndPipeState] topAndPipe_hits topAndPipe_bounces by simp

section \<open>Bounce outcome\<close>

lemma yClamped_bounds: "minY \<le> yClamped s \<and> yClamped s \<le> maxY"
  by (simp add: yClamped_def)

text \<open>
  Claim C5 (bounce outcome), as amended. In a state whose seed is not negative (every
  reachable state, \<open>reachable_seed_nonneg\<close>), when one of the four conditions holds: the
  seed of the outcome is one \<open>hash\<close> step from the seed of the state, the magnitude of
  the new velocity is the number drawn and lies in \<open>[BOUNCE_MIN, BOUNCE_MAX]\<close>, the
  velocity is positive when the deciding condition is the top boundary or the upper part
  of a pipe and negative when it is the bottom boundary or the lower part of a pipe, and
  the position is \<open>minY\<close> at the top boundary, \<open>maxY\<close> at the bottom boundary, the
  clamped predicted position plus one (at most \<open>maxY\<close>) at the upper part of a pipe and
  the clamped predicted position minus one (at least \<open>minY\<close>) at the lower part of a pipe.
\<close>

theorem bounce_outcome:
  assumes "0 \<le> seed s" and "hitTop s \<or> hitBottom s \<or> hitPipeTop s \<or> hitPipeBottom s"
  shows "out_seed (handleCollisions s) = hash (seed s) \<and>
         \<bar>out_vy (handleCollisions s)\<bar> = rng_value (randInRange (seed s) BOUNCE_MIN BOUNCE_MAX) \<and>
         BOUNCE_MIN \<le> \<bar>out_vy (handleCollisions s)\<bar> \<and>
         \<bar>out_vy (handleCollisions s)\<bar> \<le> BOUNCE_MAX \<and>
         minY \<le> out_y (handleCollisions s) \<and> out_y (handleCollisions s) \<le> maxY \<and>
         (hitTop s \<longrightarrow>
            0 < out_vy (handleCollisions s) \<and> out_y (handleCollisions s) = minY) \<and>
         (\<not> hitTop s \<and> hitBottom s \<longrightarrow>
            out_vy (handleCollisions s) < 0 \<and> out_y (handleCollisions s) = maxY) \<and>
         (\<not> hitTop s \<and> \<not> hitBottom s \<and> hitPipeTop s \<longrightarrow>
            0 < out_vy (handleCollisions s) \<and>
            out_y (handleCollisions s) = min (yClamped s + 1) maxY) \<and>
         (\<not> hitTop s \<and> \<not> hitBottom s \<and> \<not> hitPipeTop s \<and> hitPipeBottom s \<longrightarrow>
            out_vy (handleCollisions s) < 0 \<and>
            out_y (handleCollisions s) = max (yClamped s - 1) minY)"
proof -
  let ?v = "rng_value (randInRange (seed s) BOUNCE_MIN BOUNCE_MAX)"
  from bounce_value_range[OF assms(1)] have v: "BOUNCE_MIN \<le> ?v" "?v \<le> BOUNCE_MAX" by simp_all
  then have pos: "0 < ?v" by simp
  have up: "b_vy (bounce s 1) = ?v" using pos by (simp add: bounce_vy_up)
  have down: "b_vy (bounce s (- 1)) = - ?v" using pos by (simp add: bounce_vy_down)
  have sd: "out_seed (handleCollisions s) = hash (seed s)"
    using assms(2) by (simp add: out_seed_eq)
  have vy_cases: "out_vy (handleCollisions s) = ?v \<or> out_vy (handleCollisions s) = - ?v"
    using assms(2) up down by (auto simp add: handleCollisions_def Let_def)
  then have mag: "\<bar>out_vy (handleCollisions s)\<bar> = ?v" using pos by auto
  have y: "minY \<le> out_y (handleCollisions s) \<and> out_y (handleCollisions s) \<le> maxY"
    using yClamped_bounds[of s] by (simp add: handleCollisions_def Let_def)
  have c1: "hitTop s \<longrightarrow> 0 < out_vy (handleCollisions s) \<and> out_y (handleCollisions s) = minY"
    using up pos by (simp add: handleCollisions_def Let_def)
  have c2: "\<not> hitTop s \<and> hitBottom s \<longrightarrow>
            out_vy (handleCollisions s) < 0 \<and> out_y (handleCollisions s) = maxY"
    using down pos by (simp add: handleCollisions_def Let_def)
  have c3: "\<not> hitTop s \<and> \<not> hitBottom s \<and> hitPipeTop s \<longrightarrow>
            0 < out_vy (handleCollisions s) \<and>
            out_y (handleCollisions s) = min (yClamped s + 1) maxY"
    using up pos by (simp add: handleCollisions_def Let_def)
  have c4: "\<not> hitTop s \<and> \<not> hitBottom s \<and> \<not> hitPipeTop s \<and> hitPipeBottom s \<longrightarrow>
            out_vy (handleCollisions s) < 0 \<and>
            out_y (handleCollisions s) = max (yClamped s - 1) minY"
    using down pos by (simp add: handleCollisions_def Let_def)
  from sd mag v y c1 c2 c3 c4 show ?thesis by simp
qed

lemma insidePipe_out:
  "out_y (handleCollisions insidePipeState) = 63317 / 625 \<and>
   out_vy (handleCollisions insidePipeState) = 722545607740 / 2147483647 \<and>
   yClamped insidePipeState = 62692 / 625"
  by code_simp

theorem bounce_outcome_witness:
  "0 \<le> seed insidePipeState \<and> hitPipeTop insidePipeState \<and>
   out_seed (handleCollisions insidePipeState) = 1250496027 \<and>
   out_vy (handleCollisions insidePipeState) = 722545607740 / 2147483647 \<and>
   BOUNCE_MIN \<le> \<bar>out_vy (handleCollisions insidePipeState)\<bar> \<and>
   \<bar>out_vy (handleCollisions insidePipeState)\<bar> \<le> BOUNCE_MAX \<and>
   0 < out_vy (handleCollisions insidePipeState) \<and>
   out_y (handleCollisions insidePipeState) = min (62692 / 625 + 1) maxY"
proof -
  have sd: "seed insidePipeState = 42" by (simp add: insidePipeState_def)
  then have h1: "0 \<le> seed insidePipeState" by simp
  have h2: "hitTop insidePipeState \<or> hitBottom insidePipeState \<or> hitPipeTop insidePipeState \<or>
            hitPipeBottom insidePipeState"
    using insidePipe_hits by simp
  from bounce_outcome[OF h1 h2] insidePipe_hits insidePipe_out sd hash_42 h1
  show ?thesis by simp
qed

text \<open>
  The claim as stated has the position snapped to, or just inside, the edge of the
  obstacle that was hit. In \<open>insidePipeState\<close> the bird hits the upper part of a pipe
  whose lower edge is at \<open>250\<close>. After the step the bird's centre is at \<open>101.3072\<close> and
  the top of its hitbox at \<open>86.3072\<close>: one pixel below the predicted position, far from
  the edge at \<open>250\<close>, and still overlapping the part that was hit.
\<close>

theorem bounce_position_counterexample:
  "\<not> hitTop insidePipeState \<and> \<not> hitBottom insidePipeState \<and> hitPipeTop insidePipeState \<and>
   \<not> hitPipeBottom insidePipeState \<and>
   pipes insidePipeState = [insidePipe] \<and>
   hb_bottom (pipeTopHitbox insidePipe) = Fin 250 \<and>
   out_y (handleCollisions insidePipeState) = 63317 / 625 \<and>
   hb_top (birdHitbox 180 (out_y (handleCollisions insidePipeState))) = Fin (53942 / 625) \<and>
   overlaps (birdHitbox 180 (out_y (handleCollisions insidePipeState))) (pipeTopHitbox insidePipe)"
proof -
  have p: "pipes insidePipeState = [insidePipe]" by (simp add: insidePipeState_def)
  have e: "hb_bottom (pipeTopHitbox insidePipe) = Fin 250"
    by (simp add: pipeTopHitbox_def insidePipe_def)
  have o: "out_y (handleCollisions insidePipeState) = 63317 / 625" using insidePipe_out by simp
  have t: "hb_top (birdHitbox 180 (out_y (handleCollisions insidePipeState))) = Fin (53942 / 625)"
    by (simp add: o birdHitbox_def)
  have ov: "overlaps (birdHitbox 180 (out_y (handleCollisions insidePipeState)))
              (pipeTopHitbox insidePipe)"
    by (simp add: o overlaps_def birdHitbox_def pipeTopHitbox_def insidePipe_def)
  from insidePipe_hits p e o t ov show ?thesis by blast
qed

text \<open>
  On the next tick the bird hits the same part again and loses a second life.
\<close>

lemma insidePipe_next_tick:
  "lives insidePipeState = 3 \<and> lives (tick insidePipeState) = 2 \<and>
   hitPipeTop (tick insidePipeState) \<and> lives (tick (tick insidePipeState)) = 1"
  by code_simp

text \<open>
  The bound on the magnitude needs the seed not to be negative: from the seed \<open>- 1\<close> the
  same hit gives a magnitude of about \<open>117.2\<close>.
\<close>

lemma bounce_negative_seed_example:
  "\<bar>out_vy (handleCollisions (insidePipeState\<lparr>seed := - 1\<rparr>))\<bar> = 251745822340 / 2147483647 \<and>
   \<bar>out_vy (handleCollisions (insidePipeState\<lparr>seed := - 1\<rparr>))\<bar> < BOUNCE_MIN"
proof -
  have "out_vy (handleCollisions (insidePipeState\<lparr>seed := - 1\<rparr>)) = 251745822340 / 2147483647"
    by code_simp
  then show ?thesis by simp
qed

section \<open>Scoring\<close>

lemma prevPassed_iff:
  assumes "distinct (map pipe_id (pipes s))" and "p \<in> set (pipes s)"
  shows "pipe_id p \<in> prevPassed s \<longleftrightarrow> passed p"
proof
  assume "pipe_id p \<in> prevPassed s"
  then obtain q where q: "q \<in> set (pipes s)" "passed q" "pipe_id q = pipe_id p"
    by (auto simp add: prevPassed_def)
  from assms(1) have "inj_on pipe_id (set (pipes s))" by (simp add: distinct_map)
  with q assms(2) have "q = p" by (auto dest: inj_onD)
  with q show "passed p" by simp
next
  assume "passed p"
  with assms(2) show "pipe_id p \<in> prevPassed s" by (force simp add: prevPassed_def)
qed

lemma kept_prevPassed_iff:
  assumes "distinct (map pipe_id (pipes s))" and "p \<in> set (kept s)"
  shows "pipe_id p \<in> prevPassed s \<longleftrightarrow> passed p"
proof -
  from assms(2) obtain p0 where p0: "p0 \<in> set (pipes s)"
    "p = p0\<lparr>pipe_x := pipe_x p0 - PIPE_SPEED_PX_S * dt\<rparr>"
    by (auto simp add: kept_eq)
  with prevPassed_iff[OF assms(1) p0(1)] show ?thesis by simp
qed

lemma newlyPassedCount_eq:
  assumes "distinct (map pipe_id (pipes s))"
  shows "newlyPassedCount s =
     length (filter (\<lambda>p. \<not> passed p \<and> pipe_x p + PIPE_WIDTH < birdLeft s) (kept s))"
proof -
  have "newlyPassedCount s =
     length (filter (\<lambda>p. (passed p \<or> pipe_x p + PIPE_WIDTH < birdLeft s) \<and> pipe_id p \<notin> prevPassed s)
       (kept s))"
    by (simp add: newlyPassedCount_def updatedPipes_eq filter_map comp_def)
  also have "filter (\<lambda>p. (passed p \<or> pipe_x p + PIPE_WIDTH < birdLeft s) \<and> pipe_id p \<notin> prevPassed s)
       (kept s) = filter (\<lambda>p. \<not> passed p \<and> pipe_x p + PIPE_WIDTH < birdLeft s) (kept s)"
    by (rule filter_cong) (auto simp add: kept_prevPassed_iff[OF assms])
  finally show ?thesis .
qed

lemma flipped_count_eq:
  "length (filter (\<lambda>(p, q). \<not> passed p \<and> passed q) (zip (kept s) (updatedPipes s))) =
   length (filter (\<lambda>p. \<not> passed p \<and> pipe_x p + PIPE_WIDTH < birdLeft s) (kept s))"
proof -
  have "zip (kept s) (updatedPipes s) =
        map (\<lambda>p. (p, p\<lparr>passed := passed p \<or> pipe_x p + PIPE_WIDTH < birdLeft s\<rparr>)) (kept s)"
    by (simp add: updatedPipes_eq zip_map2 zip_same_conv_map)
  then show ?thesis by (simp add: filter_map comp_def) (metis (mono_tags, lifting) filter_cong)
qed

lemma tick_score: "\<not> gameEnd s \<Longrightarrow> score (tick s) = score s + int (newlyPassedCount s)"
  by (simp add: tick_def Let_def)

lemma score_reducer_mono: "score s \<le> score (reducer e s)"
  by (cases e; cases "gameEnd s")
     (simp_all add: tick_def Let_def flapR_def spawnPipe_def)

lemma score_run_mono: "s' \<in> set (scan s evs) \<Longrightarrow> score s \<le> score s'"
proof (induction evs arbitrary: s)
  case Nil
  then show ?case by simp
next
  case (Cons e evs)
  from Cons.prems have "s' = reducer e s \<or> s' \<in> set (scan (reducer e s) evs)" by simp
  then show ?case
  proof
    assume "s' = reducer e s"
    then show ?thesis by (simp add: score_reducer_mono)
  next
    assume "s' \<in> set (scan (reducer e s) evs)"
    from Cons.IH[OF this] score_reducer_mono[of s e] show ?thesis by simp
  qed
qed

lemma flipped_count_before:
  assumes "\<not> gameEnd s"
  shows "length (filter (\<lambda>(p, q). \<not> passed p \<and> passed q)
           (zip (filter (\<lambda>p. 0 < pipe_x p - PIPE_SPEED_PX_S * dt + PIPE_WIDTH) (pipes s))
                (pipes (tick s)))) =
         length (filter (\<lambda>p. \<not> passed p \<and> pipe_x p + PIPE_WIDTH < birdLeft s) (kept s))"
proof -
  let ?b = "filter (\<lambda>p. 0 < pipe_x p - PIPE_SPEED_PX_S * dt + PIPE_WIDTH) (pipes s)"
  let ?f = "\<lambda>p. p\<lparr>pipe_x := pipe_x p - PIPE_SPEED_PX_S * dt,
                 passed := passed p \<or> pipe_x p - PIPE_SPEED_PX_S * dt + PIPE_WIDTH < birdLeft s\<rparr>"
  have "zip ?b (pipes (tick s)) = map (\<lambda>p. (p, ?f p)) ?b"
    by (simp only: tick_pipes_eq[OF assms] zip_map2 zip_same_conv_map) simp
  then have "length (filter (\<lambda>(p, q). \<not> passed p \<and> passed q) (zip ?b (pipes (tick s)))) =
        length (filter (\<lambda>p. \<not> passed p \<and> pipe_x p - PIPE_SPEED_PX_S * dt + PIPE_WIDTH < birdLeft s) ?b)"
    by (simp add: filter_map comp_def) (metis (mono_tags, lifting) filter_cong)
  also have "\<dots> = length (filter (\<lambda>p. \<not> passed p \<and> pipe_x p + PIPE_WIDTH < birdLeft s) (kept s))"
    by (simp only: kept_eq[of s] filter_map comp_def length_map) simp
  finally show ?thesis .
qed

text \<open>
  Claim C6 (scoring exactness). Let the state not have ended and its pipes have pairwise
  distinct identifiers, as the data model requires and every reachable state fulfils
  (\<open>reachable_distinct_ids\<close>). Let \<open>before\<close> be the pipes of the state that the tick
  keeps: those whose right edge, after the move by \<open>PIPE_SPEED_PX_S * dt\<close>, is right of
  the left edge of the screen. The pipes after the tick are these, one for one and in
  order, each with its identifier and moved left by \<open>PIPE_SPEED_PX_S * dt\<close>. For each
  of them the flag \<open>passed\<close> stays set if it was set, and is set after the tick exactly
  if it was set before or the right edge of the moved pipe, \<open>x + PIPE_WIDTH\<close>, is less
  than the bird's left edge, the \<open>x\<close> coordinate of the bird's centre minus half of
  \<open>BIRD_WIDTH\<close> (in a reachable state a set flag implies the latter, so the flag is set
  after the tick exactly if the right edge is left of the bird's left edge,
  \<open>reachable_tick_passed_iff\<close>). The score grows by the number of these pipes whose
  flag went from unset to set, so it does not decrease; flaps and spawns leave it alone,
  so it does not decrease within a run (\<open>score_run_mono\<close>).
\<close>

theorem scoring_exact:
  assumes "\<not> gameEnd s" and "distinct (map pipe_id (pipes s))"
  shows "\<forall>before. before = filter (\<lambda>p. 0 < pipe_x p - PIPE_SPEED_PX_S * dt + PIPE_WIDTH) (pipes s) \<longrightarrow>
         length (pipes (tick s)) = length before \<and>
         (\<forall>i < length before.
            pipe_id (pipes (tick s) ! i) = pipe_id (before ! i) \<and>
            pipe_x (pipes (tick s) ! i) = pipe_x (before ! i) - PIPE_SPEED_PX_S * dt \<and>
            (passed (before ! i) \<longrightarrow> passed (pipes (tick s) ! i)) \<and>
            (passed (pipes (tick s) ! i) \<longleftrightarrow>
               passed (before ! i) \<or>
               pipe_x (pipes (tick s) ! i) + PIPE_WIDTH < vec_x (pos (bird s)) - BIRD_WIDTH / 2)) \<and>
         score (tick s) =
           score s +
           int (length (filter (\<lambda>(p, q). \<not> passed p \<and> passed q) (zip before (pipes (tick s))))) \<and>
         score s \<le> score (tick s)"
proof (intro allI impI)
  fix before
  assume b: "before = filter (\<lambda>p. 0 < pipe_x p - PIPE_SPEED_PX_S * dt + PIPE_WIDTH) (pipes s)"
  have p: "pipes (tick s) =
     map (\<lambda>p. p\<lparr>pipe_x := pipe_x p - PIPE_SPEED_PX_S * dt,
                 passed := passed p \<or> pipe_x p - PIPE_SPEED_PX_S * dt + PIPE_WIDTH <
                             vec_x (pos (bird s)) - BIRD_WIDTH / 2\<rparr>) before"
    unfolding b using tick_pipes_eq[OF assms(1)] by (simp only: birdLeft_def)
  have l: "length (pipes (tick s)) = length before" by (simp add: p)
  have n: "\<forall>i < length before.
            pipe_id (pipes (tick s) ! i) = pipe_id (before ! i) \<and>
            pipe_x (pipes (tick s) ! i) = pipe_x (before ! i) - PIPE_SPEED_PX_S * dt \<and>
            (passed (before ! i) \<longrightarrow> passed (pipes (tick s) ! i)) \<and>
            (passed (pipes (tick s) ! i) \<longleftrightarrow>
               passed (before ! i) \<or>
               pipe_x (pipes (tick s) ! i) + PIPE_WIDTH < vec_x (pos (bird s)) - BIRD_WIDTH / 2)"
    by (simp add: p)
  have sc: "score (tick s) =
           score s +
           int (length (filter (\<lambda>(p, q). \<not> passed p \<and> passed q) (zip before (pipes (tick s)))))"
    unfolding b
    by (simp only: flipped_count_before[OF assms(1)] tick_score[OF assms(1)]
        newlyPassedCount_eq[OF assms(2)])
  have mono: "score s \<le> score (tick s)" by (simp add: tick_score[OF assms(1)])
  from l n sc mono show "length (pipes (tick s)) = length before \<and>
         (\<forall>i < length before.
            pipe_id (pipes (tick s) ! i) = pipe_id (before ! i) \<and>
            pipe_x (pipes (tick s) ! i) = pipe_x (before ! i) - PIPE_SPEED_PX_S * dt \<and>
            (passed (before ! i) \<longrightarrow> passed (pipes (tick s) ! i)) \<and>
            (passed (pipes (tick s) ! i) \<longleftrightarrow>
               passed (before ! i) \<or>
               pipe_x (pipes (tick s) ! i) + PIPE_WIDTH < vec_x (pos (bird s)) - BIRD_WIDTH / 2)) \<and>
         score (tick s) =
           score s +
           int (length (filter (\<lambda>(p, q). \<not> passed p \<and> passed q) (zip before (pipes (tick s))))) \<and>
         score s \<le> score (tick s)" by blast
qed

lemma scoring_not_ended: "\<not> gameEnd scoringState"
  by (simp add: scoringState_def)

lemma scoring_before:
  "filter (\<lambda>p. 0 < pipe_x p - PIPE_SPEED_PX_S * dt + PIPE_WIDTH) (pipes scoringState) =
   pipes scoringState"
  by (simp add: scoringState_def)

lemma scoring_tick:
  "pipes (tick scoringState) =
     [\<lparr>pipe_id = 1, pipe_x = 238 / 5, gapY = Fin 200, gapH = Fin 100, passed = True\<rparr>,
      \<lparr>pipe_id = 2, pipe_x = 538 / 5, gapY = Fin 200, gapH = Fin 100, passed = True\<rparr>,
      \<lparr>pipe_id = 3, pipe_x = 109, gapY = Fin 200, gapH = Fin 100, passed = False\<rparr>,
      \<lparr>pipe_id = 4, pipe_x = 588 / 5, gapY = Fin 200, gapH = Fin 100, passed = False\<rparr>,
      \<lparr>pipe_id = 5, pipe_x = 1988 / 5, gapY = Fin 200, gapH = Fin 100, passed = False\<rparr>]"
  by (simp add: tick_pipes_eq[OF scoring_not_ended] birdLeft_def) (simp add: scoringState_def)

lemma scoring_flipped:
  "length (filter (\<lambda>(p, q). \<not> passed p \<and> passed q)
     (zip (pipes scoringState) (pipes (tick scoringState)))) = 1"
  by (simp add: scoring_tick) (simp add: scoringState_def)

text \<open>
  In \<open>scoringState\<close> the bird's centre is at \<open>180\<close> and its left edge at \<open>159\<close>. All
  five pipes are kept. The first was passed before; of the others only the second, with
  its right edge at \<open>157.6\<close>, is marked: the third has its right edge exactly at \<open>159\<close>
  and the fourth at \<open>167.6\<close>, between the bird's left edge and its centre. The score goes
  from \<open>1\<close> to \<open>2\<close>.
\<close>

theorem scoring_exact_witness:
  "\<not> gameEnd scoringState \<and> distinct (map pipe_id (pipes scoringState)) \<and>
   vec_x (pos (bird scoringState)) = 180 \<and>
   vec_x (pos (bird scoringState)) - BIRD_WIDTH / 2 = 159 \<and>
   map passed (pipes scoringState) = [True, False, False, False, False] \<and>
   map (\<lambda>p. pipe_x p + PIPE_WIDTH) (pipes (tick scoringState)) =
     [488 / 5, 788 / 5, 159, 838 / 5, 2238 / 5] \<and>
   map passed (pipes (tick scoringState)) = [True, True, False, False, False] \<and>
   score scoringState = 1 \<and> score (tick scoringState) = 2"
proof -
  note g = scoring_not_ended
  have d: "distinct (map pipe_id (pipes scoringState))" by (simp add: scoringState_def)
  have s: "score scoringState = 1" by (simp add: scoringState_def)
  have x: "vec_x (pos (bird scoringState)) = 180"
    "vec_x (pos (bird scoringState)) - BIRD_WIDTH / 2 = 159"
    by (simp_all add: scoringState_def)
  have f: "map passed (pipes scoringState) = [True, False, False, False, False]"
    by (simp add: scoringState_def)
  have e: "map (\<lambda>p. pipe_x p + PIPE_WIDTH) (pipes (tick scoringState)) =
     [488 / 5, 788 / 5, 159, 838 / 5, 2238 / 5]" by (simp add: scoring_tick)
  have t: "map passed (pipes (tick scoringState)) = [True, True, False, False, False]"
    by (simp add: scoring_tick)
  from scoring_exact[OF g d] have
    "score (tick scoringState) =
       score scoringState +
       int (length (filter (\<lambda>(p, q). \<not> passed p \<and> passed q)
         (zip (pipes scoringState) (pipes (tick scoringState)))))"
    by (simp only: scoring_before)
  then have "score (tick scoringState) = 2" by (simp add: scoring_flipped s)
  with g d s x f e t show ?thesis by blast
qed

section \<open>Culling\<close>

text \<open>
  Claim C7 (obstacle culling). For a state that has not ended, the pipes after a tick
  are, in order, the pipes whose right edge after the move by \<open>PIPE_SPEED_PX_S * dt\<close> is
  right of the left edge of the screen, each moved and marked; every pipe after the tick
  has its right edge right of that edge. When the identifiers are pairwise distinct, the
  identifier of a pipe of the state is among those after the tick exactly if that
  condition holds of the pipe, and it is absent after the tick when the pipe was at
  \<open>x \<le> - PIPE_WIDTH\<close>.
\<close>

theorem obstacle_culling:
  assumes "\<not> gameEnd s"
  shows "pipes (tick s) =
           map (\<lambda>p. p\<lparr>pipe_x := pipe_x p - PIPE_SPEED_PX_S * dt,
                       passed := passed p \<or>
                         pipe_x p - PIPE_SPEED_PX_S * dt + PIPE_WIDTH < birdLeft s\<rparr>)
             (filter (\<lambda>p. 0 < pipe_x p - PIPE_SPEED_PX_S * dt + PIPE_WIDTH) (pipes s)) \<and>
         (\<forall>q \<in> set (pipes (tick s)). 0 < pipe_x q + PIPE_WIDTH) \<and>
         (distinct (map pipe_id (pipes s)) \<longrightarrow>
            (\<forall>p \<in> set (pipes s).
               (pipe_id p \<in> pipe_id ` set (pipes (tick s)) \<longleftrightarrow>
                  0 < pipe_x p - PIPE_SPEED_PX_S * dt + PIPE_WIDTH) \<and>
               (pipe_x p \<le> - PIPE_WIDTH \<longrightarrow> pipe_id p \<notin> pipe_id ` set (pipes (tick s)))))"
proof (intro conjI impI)
  note eq = tick_pipes_eq[OF assms]
  show "pipes (tick s) =
           map (\<lambda>p. p\<lparr>pipe_x := pipe_x p - PIPE_SPEED_PX_S * dt,
                       passed := passed p \<or>
                         pipe_x p - PIPE_SPEED_PX_S * dt + PIPE_WIDTH < birdLeft s\<rparr>)
             (filter (\<lambda>p. 0 < pipe_x p - PIPE_SPEED_PX_S * dt + PIPE_WIDTH) (pipes s))"
    by (rule eq)
  show "\<forall>q \<in> set (pipes (tick s)). 0 < pipe_x q + PIPE_WIDTH"
  proof
    fix q assume "q \<in> set (pipes (tick s))"
    then have "q \<in> (\<lambda>p. p\<lparr>pipe_x := pipe_x p - PIPE_SPEED_PX_S * dt,
                       passed := passed p \<or>
                         pipe_x p - PIPE_SPEED_PX_S * dt + PIPE_WIDTH < birdLeft s\<rparr>) `
             {p \<in> set (pipes s). 0 < pipe_x p - PIPE_SPEED_PX_S * dt + PIPE_WIDTH}"
      unfolding eq by simp
    then obtain p where p: "0 < pipe_x p - PIPE_SPEED_PX_S * dt + PIPE_WIDTH"
      "q = p\<lparr>pipe_x := pipe_x p - PIPE_SPEED_PX_S * dt,
                       passed := passed p \<or>
                         pipe_x p - PIPE_SPEED_PX_S * dt + PIPE_WIDTH < birdLeft s\<rparr>"
      by blast
    from p(1) show "0 < pipe_x q + PIPE_WIDTH" by (simp add: p(2))
  qed
  assume d: "distinct (map pipe_id (pipes s))"
  then have inj: "inj_on pipe_id (set (pipes s))" by (simp add: distinct_map)
  have "set (map pipe_id (pipes (tick s))) =
        set (map pipe_id (filter (\<lambda>p. 0 < pipe_x p - PIPE_SPEED_PX_S * dt + PIPE_WIDTH) (pipes s)))"
    by (simp only: tick_pipe_ids[OF assms])
  then have ids: "pipe_id ` set (pipes (tick s)) =
               pipe_id ` {q \<in> set (pipes s). 0 < pipe_x q - PIPE_SPEED_PX_S * dt + PIPE_WIDTH}"
    by simp
  show "\<forall>p \<in> set (pipes s).
               (pipe_id p \<in> pipe_id ` set (pipes (tick s)) \<longleftrightarrow>
                  0 < pipe_x p - PIPE_SPEED_PX_S * dt + PIPE_WIDTH) \<and>
               (pipe_x p \<le> - PIPE_WIDTH \<longrightarrow> pipe_id p \<notin> pipe_id ` set (pipes (tick s)))"
  proof
    fix p assume p: "p \<in> set (pipes s)"
    have iff: "pipe_id p \<in> pipe_id ` set (pipes (tick s)) \<longleftrightarrow>
               0 < pipe_x p - PIPE_SPEED_PX_S * dt + PIPE_WIDTH"
    proof
      assume "pipe_id p \<in> pipe_id ` set (pipes (tick s))"
      then have "pipe_id p \<in>
         pipe_id ` {q \<in> set (pipes s). 0 < pipe_x q - PIPE_SPEED_PX_S * dt + PIPE_WIDTH}"
        by (simp only: ids)
      then obtain q where q: "q \<in> set (pipes s)"
        "0 < pipe_x q - PIPE_SPEED_PX_S * dt + PIPE_WIDTH" "pipe_id p = pipe_id q"
        by blast
      from inj q(1) p q(3) have "q = p" by (simp add: inj_on_def)
      with q show "0 < pipe_x p - PIPE_SPEED_PX_S * dt + PIPE_WIDTH" by simp
    next
      assume "0 < pipe_x p - PIPE_SPEED_PX_S * dt + PIPE_WIDTH"
      with p have "pipe_id p \<in>
         pipe_id ` {q \<in> set (pipes s). 0 < pipe_x q - PIPE_SPEED_PX_S * dt + PIPE_WIDTH}"
        by blast
      then show "pipe_id p \<in> pipe_id ` set (pipes (tick s))" by (simp only: ids)
    qed
    have "pipe_x p \<le> - PIPE_WIDTH \<Longrightarrow> \<not> 0 < pipe_x p - PIPE_SPEED_PX_S * dt + PIPE_WIDTH"
      by simp
    with iff show "(pipe_id p \<in> pipe_id ` set (pipes (tick s)) \<longleftrightarrow>
                  0 < pipe_x p - PIPE_SPEED_PX_S * dt + PIPE_WIDTH) \<and>
               (pipe_x p \<le> - PIPE_WIDTH \<longrightarrow> pipe_id p \<notin> pipe_id ` set (pipes (tick s)))"
      by blast
  qed
qed

lemma fivePipes_not_ended: "\<not> gameEnd fivePipesState"
  by (simp add: fivePipesState_def)

lemma fivePipes_tick:
  "pipes (tick fivePipesState) =
     [\<lparr>pipe_id = 3, pipe_x = 538 / 5, gapY = Fin 200, gapH = Fin 100, passed = True\<rparr>,
      \<lparr>pipe_id = 4, pipe_x = 838 / 5, gapY = Fin 200, gapH = Fin 100, passed = False\<rparr>,
      \<lparr>pipe_id = 5, pipe_x = 1988 / 5, gapY = Fin 200, gapH = Fin 100, passed = False\<rparr>]"
  by (simp add: tick_pipes_eq[OF fivePipes_not_ended] birdLeft_def) (simp add: fivePipesState_def)

lemma fivePipes_tick_ids: "map pipe_id (pipes (tick fivePipesState)) = [3, 4, 5]"
  by (simp add: fivePipes_tick)

lemma fivePipes_tick_xs:
  "map pipe_x (pipes (tick fivePipesState)) = [538 / 5, 838 / 5, 1988 / 5]"
  by (simp add: fivePipes_tick)

text \<open>
  In \<open>fivePipesState\<close> the pipe at \<open>x = - 50\<close> and the pipe at \<open>x = - 49\<close>, which the
  move takes to \<open>- 51.4\<close>, are gone after the tick; the other three are kept.
\<close>

theorem obstacle_culling_witness:
  "\<not> gameEnd fivePipesState \<and> distinct (map pipe_id (pipes fivePipesState)) \<and>
   map pipe_id (pipes fivePipesState) = [1, 2, 3, 4, 5] \<and>
   map pipe_x (pipes fivePipesState) = [- 50, - 49, 110, 170, 400] \<and>
   map pipe_id (pipes (tick fivePipesState)) = [3, 4, 5] \<and>
   map pipe_x (pipes (tick fivePipesState)) = [538 / 5, 838 / 5, 1988 / 5] \<and>
   1 \<notin> pipe_id ` set (pipes (tick fivePipesState))"
proof -
  note g = fivePipes_not_ended
  have d: "distinct (map pipe_id (pipes fivePipesState))" by (simp add: fivePipesState_def)
  have i: "map pipe_id (pipes fivePipesState) = [1, 2, 3, 4, 5]" by (simp add: fivePipesState_def)
  have x: "map pipe_x (pipes fivePipesState) = [- 50, - 49, 110, 170, 400]"
    by (simp add: fivePipesState_def)
  have "1 \<notin> pipe_id ` set (pipes (tick fivePipesState))"
  proof -
    let ?p = "\<lparr>pipe_id = 1, pipe_x = - 50, gapY = Fin 200, gapH = Fin 100, passed = True\<rparr>"
    have m: "?p \<in> set (pipes fivePipesState)" by (simp add: fivePipesState_def)
    from obstacle_culling[OF g] d
    have "\<forall>p \<in> set (pipes fivePipesState).
            (pipe_id p \<in> pipe_id ` set (pipes (tick fivePipesState)) \<longleftrightarrow>
               0 < pipe_x p - PIPE_SPEED_PX_S * dt + PIPE_WIDTH) \<and>
            (pipe_x p \<le> - PIPE_WIDTH \<longrightarrow>
               pipe_id p \<notin> pipe_id ` set (pipes (tick fivePipesState)))"
      by blast
    from bspec[OF this m] show ?thesis by simp
  qed
  with g d i x fivePipes_tick_ids fivePipes_tick_xs show ?thesis by blast
qed

section \<open>Determinism\<close>

text \<open>
  No reducer reads the past traces \<open>ghosts\<close>: each local of the tick, and so each
  reducer and each run, is the same whatever that field holds, and passes the field on
  unchanged.
\<close>

lemma ghosts_locals [simp]:
  "vy (s\<lparr>ghosts := g\<rparr>) = vy s"
  "yNextRaw (s\<lparr>ghosts := g\<rparr>) = yNextRaw s"
  "yClamped (s\<lparr>ghosts := g\<rparr>) = yClamped s"
  "birdRect (s\<lparr>ghosts := g\<rparr>) = birdRect s"
  "hitTop (s\<lparr>ghosts := g\<rparr>) = hitTop s"
  "hitBottom (s\<lparr>ghosts := g\<rparr>) = hitBottom s"
  "hitPipeTop (s\<lparr>ghosts := g\<rparr>) = hitPipeTop s"
  "hitPipeBottom (s\<lparr>ghosts := g\<rparr>) = hitPipeBottom s"
  "bounce (s\<lparr>ghosts := g\<rparr>) d = bounce s d"
  "stoppedVy (s\<lparr>ghosts := g\<rparr>) = stoppedVy s"
  "moved (s\<lparr>ghosts := g\<rparr>) = moved s"
  "kept (s\<lparr>ghosts := g\<rparr>) = kept s"
  "birdLeft (s\<lparr>ghosts := g\<rparr>) = birdLeft s"
  "prevPassed (s\<lparr>ghosts := g\<rparr>) = prevPassed s"
  "updatedPipes (s\<lparr>ghosts := g\<rparr>) = updatedPipes s"
  "newlyPassedCount (s\<lparr>ghosts := g\<rparr>) = newlyPassedCount s"
  by (simp_all add: vy_def yNextRaw_def yClamped_def birdRect_def hitTop_def hitBottom_def
      hitPipeTop_def hitPipeBottom_def bounce_def stoppedVy_def moved_def kept_def birdLeft_def
      prevPassed_def updatedPipes_def newlyPassedCount_def)

lemma handleCollisions_ghosts [simp]:
  "handleCollisions (s\<lparr>ghosts := g\<rparr>) = handleCollisions s"
  by (simp add: handleCollisions_def Let_def cong: if_cong)

lemma tick_ghosts: "tick (s\<lparr>ghosts := g\<rparr>) = (tick s)\<lparr>ghosts := g\<rparr>"
  by (simp add: tick_def Let_def)

lemma reducer_ghosts: "reducer e (s\<lparr>ghosts := g\<rparr>) = (reducer e s)\<lparr>ghosts := g\<rparr>"
  by (cases e) (simp_all add: tick_ghosts flapR_def spawnPipe_def Let_def)

lemma scan_ghosts: "scan (s\<lparr>ghosts := g\<rparr>) evs = map (\<lambda>t. t\<lparr>ghosts := g\<rparr>) (scan s evs)"
  by (induction evs arbitrary: s) (simp_all add: reducer_ghosts)

text \<open>The state after the event at an index is the reducer of that event applied to the
  state before it.\<close>

lemma scan_nth:
  "i < length evs \<Longrightarrow> scan s evs ! i = reducer (evs ! i) ((s # scan s evs) ! i)"
proof (induction evs arbitrary: s i)
  case Nil
  then show ?case by simp
next
  case (Cons e evs)
  show ?case
  proof (cases i)
    case 0
    then show ?thesis by simp
  next
    case (Suc j)
    with Cons.prems have "j < length evs" by simp
    from Cons.IH[OF this, of "reducer e s"] Suc show ?thesis by simp
  qed
qed

text \<open>
  The velocity after a tick with a hit: its sign comes from the first hit condition that
  holds, its magnitude from one step of the generator on the seed of the state.
\<close>

lemma tick_bounce_velocity:
  assumes "\<not> gameEnd s" and "hitTop s \<or> hitBottom s \<or> hitPipeTop s \<or> hitPipeBottom s"
  shows "velY (bird (tick s)) =
           (if hitTop s \<or> (\<not> hitBottom s \<and> hitPipeTop s) then 1 else - 1) *
           \<bar>BOUNCE_MIN + of_int (hash (seed s)) / 2147483647 * (BOUNCE_MAX - BOUNCE_MIN)\<bar>"
proof -
  have v: "rng_value (randInRange (seed s) BOUNCE_MIN BOUNCE_MAX) =
           BOUNCE_MIN + of_int (hash (seed s)) / 2147483647 * (BOUNCE_MAX - BOUNCE_MIN)"
    by (simp add: randInRange_def Let_def r01_eq)
  have "velY (bird (tick s)) = out_vy (handleCollisions s)" using assms(1) by (rule tick_velY)
  also have "\<dots> = (if hitTop s \<or> (\<not> hitBottom s \<and> hitPipeTop s) then 1 else - 1) *
           \<bar>rng_value (randInRange (seed s) BOUNCE_MIN BOUNCE_MAX)\<bar>"
    using assms(2) by (auto simp add: handleCollisions_def Let_def bounce_vy_up bounce_vy_down)
  finally show ?thesis by (simp only: v)
qed

text \<open>
  Of the two calls of \<^verbatim>\<open>Math.random()\<close> only the one that chooses the seed reaches the
  start state.
\<close>

lemma startState_fixed_by_seed:
  "seed (startState r0 r n g) = seed (startState r0' r' n g') \<Longrightarrow>
   startState r0' r' n g' = (startState r0 r n g)\<lparr>ghosts := g'\<rparr>"
  by (simp add: startState_def initialState_def)

text \<open>
  Claim C1 (determinism). The run from a state \<open>s\<close> over a sequence of events is the
  list \<open>scan s evs\<close> of the states the reducers make, a function of \<open>s\<close> and the
  events: no reducer draws a random number, reads a clock or reads anything but its
  argument. The theorem says what of the state the run depends on. Two states that agree
  on every field but the past traces give, over the same events, runs that agree on
  every field but the past traces; with the same traces the runs are equal. Along the
  run, whenever a tick event meets a state \<open>p\<close> that has not ended and in which a hit
  condition holds, the seed after the tick is \<open>hash (seed p)\<close>, and the bird's velocity
  after the tick has the direction of the first hit condition that holds (downward,
  \<open>+\<close>, for the top boundary and the upper part of a pipe; upward, \<open>-\<close>, for the bottom
  boundary and the lower part) and the magnitude
  \<open>\<bar>BOUNCE_MIN + hash (seed p) / (m - 1) * (BOUNCE_MAX - BOUNCE_MIN)\<bar>\<close>: both are
  fixed by the seed of \<open>p\<close> and the hit conditions. Two start states with the same seed,
  for the same schedule length, are equal up to the past traces, whatever the draws
  before the floor were.
\<close>

theorem determinism:
  assumes "s' = s\<lparr>ghosts := g\<rparr>"
  shows "scan s' evs = map (\<lambda>t. t\<lparr>ghosts := g\<rparr>) (scan s evs) \<and>
         (g = ghosts s \<longrightarrow> scan s' evs = scan s evs) \<and>
         (\<forall>i p. i < length evs \<and> p = (s # scan s evs) ! i \<and> evs ! i = TickEv \<and> \<not> gameEnd p \<and>
                (hitTop p \<or> hitBottom p \<or> hitPipeTop p \<or> hitPipeBottom p) \<longrightarrow>
            seed (scan s evs ! i) = hash (seed p) \<and>
            velY (bird (scan s evs ! i)) =
              (if hitTop p \<or> (\<not> hitBottom p \<and> hitPipeTop p) then 1 else - 1) *
              \<bar>BOUNCE_MIN + of_int (hash (seed p)) / 2147483647 * (BOUNCE_MAX - BOUNCE_MIN)\<bar>) \<and>
         (seed (startState r0 r n g0) = seed (startState r0' r' n g0') \<longrightarrow>
            startState r0' r' n g0' = (startState r0 r n g0)\<lparr>ghosts := g0'\<rparr>)"
proof (intro conjI allI impI)
  show "scan s' evs = map (\<lambda>t. t\<lparr>ghosts := g\<rparr>) (scan s evs)"
    unfolding assms by (rule scan_ghosts)
next
  assume "g = ghosts s"
  then have "s' = s" using assms by simp
  then show "scan s' evs = scan s evs" by simp
next
  fix i p
  assume a: "i < length evs \<and> p = (s # scan s evs) ! i \<and> evs ! i = TickEv \<and> \<not> gameEnd p \<and>
             (hitTop p \<or> hitBottom p \<or> hitPipeTop p \<or> hitPipeBottom p)"
  then have i: "i < length evs" and p: "p = (s # scan s evs) ! i" and e: "evs ! i = TickEv"
    by blast+
  have t: "scan s evs ! i = tick p"
    unfolding p using scan_nth[OF i, of s] e by simp
  from a have ne: "\<not> gameEnd p" by blast
  from a have h: "hitTop p \<or> hitBottom p \<or> hitPipeTop p \<or> hitPipeBottom p" by blast
  show "seed (scan s evs ! i) = hash (seed p)"
    using ne h by (simp add: t tick_seed out_seed_eq)
  show "velY (bird (scan s evs ! i)) =
              (if hitTop p \<or> (\<not> hitBottom p \<and> hitPipeTop p) then 1 else - 1) *
              \<bar>BOUNCE_MIN + of_int (hash (seed p)) / 2147483647 * (BOUNCE_MAX - BOUNCE_MIN)\<bar>"
    unfolding t by (rule tick_bounce_velocity[OF ne h])
next
  assume "seed (startState r0 r n g0) = seed (startState r0' r' n g0')"
  then show "startState r0' r' n g0' = (startState r0 r n g0)\<lparr>ghosts := g0'\<rparr>"
    by (rule startState_fixed_by_seed)
qed

lemma insidePipe_not_ended: "\<not> gameEnd insidePipeState"
  by (simp add: insidePipeState_def)

text \<open>
  In \<open>insidePipeState\<close> the bird hits the upper part of a pipe. Over a tick, a flap and
  a tick, the run with one past trace is the run without, with the trace in every state;
  the first tick is a collision, takes the seed from \<open>42\<close> to \<open>1250496027\<close> and leaves
  the bird with the velocity \<open>220 + 1250496027 / 2147483647 * 200\<close> downward.
\<close>

theorem determinism_witness:
  "scan (insidePipeState\<lparr>ghosts := oneGhost\<rparr>) [TickEv, FlapEv, TickEv] =
     map (\<lambda>t. t\<lparr>ghosts := oneGhost\<rparr>) (scan insidePipeState [TickEv, FlapEv, TickEv]) \<and>
   \<not> gameEnd insidePipeState \<and> hitPipeTop insidePipeState \<and> seed insidePipeState = 42 \<and>
   seed (scan insidePipeState [TickEv, FlapEv, TickEv] ! 0) = 1250496027 \<and>
   velY (bird (scan insidePipeState [TickEv, FlapEv, TickEv] ! 0)) = 722545607740 / 2147483647"
proof -
  let ?evs = "[TickEv, FlapEv, TickEv]"
  note th = determinism[where s' = "insidePipeState\<lparr>ghosts := oneGhost\<rparr>" and s = insidePipeState
      and g = oneGhost and evs = ?evs, OF refl]
  from th have a: "scan (insidePipeState\<lparr>ghosts := oneGhost\<rparr>) ?evs =
     map (\<lambda>t. t\<lparr>ghosts := oneGhost\<rparr>) (scan insidePipeState ?evs)" by blast
  from th have b:
    "0 < length ?evs \<and> insidePipeState = (insidePipeState # scan insidePipeState ?evs) ! 0 \<and>
       ?evs ! 0 = TickEv \<and> \<not> gameEnd insidePipeState \<and>
       (hitTop insidePipeState \<or> hitBottom insidePipeState \<or> hitPipeTop insidePipeState \<or>
        hitPipeBottom insidePipeState) \<longrightarrow>
     seed (scan insidePipeState ?evs ! 0) = hash (seed insidePipeState) \<and>
     velY (bird (scan insidePipeState ?evs ! 0)) =
       (if hitTop insidePipeState \<or> (\<not> hitBottom insidePipeState \<and> hitPipeTop insidePipeState)
        then 1 else - 1) *
       \<bar>BOUNCE_MIN + of_int (hash (seed insidePipeState)) / 2147483647 * (BOUNCE_MAX - BOUNCE_MIN)\<bar>"
    by blast
  have sd: "seed insidePipeState = 42" by (simp add: insidePipeState_def)
  have pre: "0 < length ?evs \<and> insidePipeState = (insidePipeState # scan insidePipeState ?evs) ! 0 \<and>
       ?evs ! 0 = TickEv \<and> \<not> gameEnd insidePipeState \<and>
       (hitTop insidePipeState \<or> hitBottom insidePipeState \<or> hitPipeTop insidePipeState \<or>
        hitPipeBottom insidePipeState)"
    using insidePipe_not_ended insidePipe_hits by simp
  from b pre have c: "seed (scan insidePipeState ?evs ! 0) = hash (seed insidePipeState)"
    and d: "velY (bird (scan insidePipeState ?evs ! 0)) =
       (if hitTop insidePipeState \<or> (\<not> hitBottom insidePipeState \<and> hitPipeTop insidePipeState)
        then 1 else - 1) *
       \<bar>BOUNCE_MIN + of_int (hash (seed insidePipeState)) / 2147483647 * (BOUNCE_MAX - BOUNCE_MIN)\<bar>"
    by blast+
  from c have c': "seed (scan insidePipeState ?evs ! 0) = 1250496027" by (simp only: sd hash_42)
  have "(if hitTop insidePipeState \<or> (\<not> hitBottom insidePipeState \<and> hitPipeTop insidePipeState)
        then 1 else - 1) *
       \<bar>BOUNCE_MIN + of_int (hash (seed insidePipeState)) / 2147483647 * (BOUNCE_MAX - BOUNCE_MIN)\<bar>
       = (722545607740 / 2147483647 :: rat)"
    using insidePipe_hits by (simp add: sd hash_42)
  with d have d': "velY (bird (scan insidePipeState ?evs ! 0)) = 722545607740 / 2147483647"
    by (simp only:)
  from a insidePipe_not_ended insidePipe_hits sd c' d' show ?thesis by blast
qed

section \<open>The contract of the generator\<close>

text \<open>
  The seeds of the program: the start seed is \<open>\<lfloor>r * (m - 1)\<rfloor>\<close> for a draw \<open>0 \<le> r < 1\<close>,
  and every later seed is a result of \<open>hash\<close>. So every seed the generator is applied to
  lies in \<open>[0, m)\<close>.
\<close>

lemma reachable_seed_range: "reachable s \<Longrightarrow> 0 \<le> seed s \<and> seed s < RNG_m"
proof (induction rule: reachable.induct)
  case (start r0 r n g)
  from start(4) have "r * 2147483647 < 2147483648" by simp
  then have "\<lfloor>r * 2147483647\<rfloor> < 2147483648" by (simp add: floor_less_iff)
  with start(3) show ?case by (simp add: startState_def)
next
  case (step s e)
  have h: "hash (seed s) < RNG_m" using hash_abs_less[of "seed s"] by simp
  show ?case
  proof (cases e)
    case TickEv
    with step.IH h show ?thesis
      by (cases "gameEnd s") (simp_all add: tick_ended tick_seed out_seed_eq hash_nonneg)
  next
    case FlapEv
    with step.IH show ?thesis by (simp add: flapR_def)
  next
    case (SpawnEv spec)
    with step.IH show ?thesis by (simp add: spawnPipe_def Let_def)
  qed
qed

text \<open>
  Claim C8 (contract of the generator). The seeds are those of the generator's state
  space \<open>[0, m)\<close>, which holds every seed the program applies it to
  (\<open>reachable_seed_range\<close>). For such a seed, \<open>hash\<close> is \<open>(a * seed + c) mod m\<close> as
  computed in double arithmetic (the product and the sum each rounded to 53 significant
  bits; below \<open>m\<close> the product is less than \<open>2 ^ 62\<close>, far from overflow), equal to the
  exact value whenever \<open>a * seed + c < 2 ^ 53\<close>, and lies in \<open>[0, m)\<close>; \<open>rand01\<close>
  returns this hash as the next seed together with \<open>(scale (hash seed) + 1) / 2\<close>, a
  value in \<open>[0, 1]\<close>. Both are functions of the seed alone.
\<close>

theorem prng_contract:
  assumes "0 \<le> sd" and "sd < RNG_m"
  shows "hash sd = roundDouble (roundDouble (RNG_a * sd) + RNG_c) mod RNG_m \<and>
         (RNG_a * sd + RNG_c < 2 ^ 53 \<longrightarrow> hash sd = (RNG_a * sd + RNG_c) mod RNG_m) \<and>
         0 \<le> hash sd \<and> hash sd < RNG_m \<and>
         nextSeed (rand01 sd) = hash sd \<and>
         r01 (rand01 sd) = (scale (hash sd) + 1) / 2 \<and>
         0 \<le> r01 (rand01 sd) \<and> r01 (rand01 sd) \<le> 1"
proof -
  have "hash sd < RNG_m" using hash_abs_less[of sd] by simp
  moreover have "nextSeed (rand01 sd) = hash sd" "r01 (rand01 sd) = (scale (hash sd) + 1) / 2"
    by (simp_all add: rand01_def Let_def)
  ultimately show ?thesis
    using assms(1) hash_eq_mod[OF assms(1)] hash_exact[OF assms(1)] hash_nonneg[OF assms(1)]
      r01_nonneg[OF assms(1)] r01_le_1[of sd]
    by simp
qed

lemma hash_10000000: "hash 10000000 = 634602680"
  by code_simp

text \<open>
  The seed \<open>42\<close>, where the arithmetic is exact, and the seed \<open>10000000\<close>, where the
  rounding shows (below).
\<close>

theorem prng_contract_witness:
  "(0::int) \<le> 42 \<and> (42::int) < RNG_m \<and> RNG_a * 42 + RNG_c < 2 ^ 53 \<and>
   hash 42 = (RNG_a * 42 + RNG_c) mod RNG_m \<and> hash 42 = 1250496027 \<and>
   nextSeed (rand01 42) = 1250496027 \<and>
   0 \<le> r01 (rand01 42) \<and> r01 (rand01 42) \<le> 1 \<and>
   (0::int) \<le> 10000000 \<and> (10000000::int) < RNG_m \<and>
   hash 10000000 = 634602680 \<and> nextSeed (rand01 10000000) = 634602680 \<and>
   0 \<le> r01 (rand01 10000000) \<and> r01 (rand01 10000000) \<le> 1"
proof -
  have h: "(0::int) \<le> 42" "(42::int) < RNG_m" by simp_all
  have k: "(0::int) \<le> 10000000" "(10000000::int) < RNG_m" by simp_all
  from prng_contract[OF h] hash_42
  have a: "RNG_a * 42 + RNG_c < (2::int) ^ 53 \<and>
   hash 42 = (RNG_a * 42 + RNG_c) mod RNG_m \<and> hash 42 = 1250496027 \<and>
   nextSeed (rand01 42) = 1250496027 \<and>
   0 \<le> r01 (rand01 42) \<and> r01 (rand01 42) \<le> 1" by simp
  from prng_contract[OF k] hash_10000000
  have b: "hash 10000000 = 634602680 \<and> nextSeed (rand01 10000000) = 634602680 \<and>
   0 \<le> r01 (rand01 10000000) \<and> r01 (rand01 10000000) \<le> 1" by simp
  from a b h k show ?thesis by blast
qed

text \<open>
  The rounding is visible from seeds of about \<open>2 ^ 23\<close> on: for the seed \<open>10000000\<close> the
  rounded sum is even, and the hash is one less than the exact residue.
\<close>

lemma hash_rounding_example:
  "hash 10000000 = 634602680 \<and> (RNG_a * 10000000 + RNG_c) mod RNG_m = 634602681"
proof -
  have "hash 10000000 = 634602680" by code_simp
  then show ?thesis by simp
qed

text \<open>
  Outside the state space, for a negative seed, the remainder has the sign of the
  dividend: the hash of \<open>- 1\<close> is \<open>- 1103502900\<close> and the value that \<open>rand01\<close> returns
  is negative. The program applies the generator to no such seed.
\<close>

lemma hash_negative_seed_example:
  "hash (- 1) = - 1103502900 \<and>
   (RNG_a * (- 1) + RNG_c) mod RNG_m = 1043980748 \<and>
   r01 (rand01 (- 1)) = - (1103502900 / 2147483647) \<and>
   r01 (rand01 (- 1)) < 0"
proof -
  have h: "hash (- 1) = - 1103502900" by code_simp
  have m: "(RNG_a * (- 1) + RNG_c) mod RNG_m = 1043980748" by simp
  have r: "r01 (rand01 (- 1)) = - (1103502900 / 2147483647)" by (simp add: r01_eq h)
  from h m r show ?thesis by simp
qed

section \<open>Parsing the schedule: the rows\<close>

text \<open>
  The two splitting functions return at least one piece, and no piece contains the
  separator.
\<close>

lemma splitLines_nonempty: "splitLines t \<noteq> []"
  by (induction t rule: splitLines.induct) (auto split: list.splits)

lemma splitComma_nonempty: "splitComma t \<noteq> []"
  by (induction t rule: splitComma.induct) (auto split: list.splits)

lemma splitLines_no_LF: "l \<in> set (splitLines t) \<Longrightarrow> CHR 0x0A \<notin> set l"
  by (induction t arbitrary: l rule: splitLines.induct)
     (auto split: list.splits if_splits simp: splitLines_nonempty)

lemma splitComma_no_comma: "f \<in> set (splitComma t) \<Longrightarrow> CHR '','' \<notin> set f"
  by (induction t arbitrary: f rule: splitComma.induct)
     (auto split: list.splits if_splits simp: splitComma_nonempty)

text \<open>
  The conversion gives \<open>NaN\<close> exactly for a string that, without the white space at its
  ends, is neither empty nor a numeric literal; for an empty or blank string it gives
  \<open>0\<close>. A product with a constant that is not zero is \<open>NaN\<close> only if the other factor
  is.
\<close>

lemma jneg_NaN_iff [simp]: "jneg a = NaN \<longleftrightarrow> a = NaN"
  by (cases a) simp_all

lemma strUnsignedDecimalLiteral_not_NaN: "strUnsignedDecimalLiteral s \<noteq> Some NaN"
  by (simp add: strUnsignedDecimalLiteral_def Let_def split: option.splits)

lemma strNumericLiteral_not_NaN: "strNumericLiteral s \<noteq> Some NaN"
  by (auto simp add: strNumericLiteral_def nonDecimalIntegerLiteral_def strDecimalLiteral_def
      strUnsignedDecimalLiteral_not_NaN Let_def split: option.splits if_splits)

lemma Number_NaN_iff:
  "Number str = NaN \<longleftrightarrow> trim str \<noteq> [] \<and> strNumericLiteral (trim str) = None"
  using strNumericLiteral_not_NaN[of "trim str"]
  by (auto simp add: Number_def Let_def split: option.splits)

lemma Number_blank: "trim str = [] \<Longrightarrow> Number str = Fin 0"
  by (simp add: Number_def)

lemma toNumber_NaN_iff:
  "toNumber (field fs k) = NaN \<longleftrightarrow>
     length fs \<le> k \<or> (trim (fs ! k) \<noteq> [] \<and> strNumericLiteral (trim (fs ! k)) = None)"
  by (auto simp add: toNumber_def field_def Number_NaN_iff)

lemma toNumber_blank: "k < length fs \<Longrightarrow> trim (fs ! k) = [] \<Longrightarrow> toNumber (field fs k) = Fin 0"
  by (simp add: toNumber_def field_def Number_blank)

lemma jmul_Fin_iff: "c \<noteq> 0 \<Longrightarrow> jmul a (Fin c) = NaN \<longleftrightarrow> a = NaN"
  by (cases a) simp_all

lemma length_parseMapCsv:
  "length (parseMapCsv csv) = length (splitLines (trim csv)) - 1"
  by (simp add: parseMapCsv_def)

lemma nth_parseMapCsv:
  "i < length (parseMapCsv csv) \<Longrightarrow>
   parseMapCsv csv ! i = parseLine (splitLines (trim csv) ! Suc i)"
  by (simp add: parseMapCsv_def)

text \<open>Values of the conversion.\<close>

lemma Number_examples:
  "Number [] = Fin 0" "Number ''  '' = Fin 0" "Number ''abc'' = NaN"
  "Number ''0.5'' = Fin (1 / 2)" "Number ''0.25'' = Fin (1 / 4)" "Number ''2'' = Fin 2"
  "Number ''0.3'' = Fin (3 / 10)" "Number '' 12.5 '' = Fin (25 / 2)"
  "Number ''1e3'' = Fin 1000" "Number ''0x1F'' = Fin 31" "Number ''-.5'' = Fin (- 1 / 2)"
  "Number ''Infinity'' = PosInf" "Number ''-Infinity'' = NegInf"
  "Number ''12px'' = NaN" "Number ''.'' = NaN"
  by code_simp+

text \<open>
  Claim C9 (schedule parsing), as amended. The lines are those of the text without the
  white space at its ends. The parser drops the first of them and returns one
  specification per remaining line, in order. With \<open>fs\<close> the comma-separated fields of
  the line, the gap centre is the conversion of the first field times \<open>CANVAS_HEIGHT\<close>,
  the gap height the conversion of the second field times \<open>CANVAS_HEIGHT\<close>, and the time
  the conversion of the third field times \<open>1000\<close>. The value in the specification is
  \<open>NaN\<close> exactly if the field is missing or, without the white space at its ends, is
  neither empty nor a numeric literal. For a field that is empty or blank the value is
  \<open>0\<close>, not \<open>NaN\<close>. The parser is a total function: no input makes it fail.
\<close>

theorem schedule_parsing:
  "length (parseMapCsv csv) = length (splitLines (trim csv)) - 1 \<and>
   (\<forall>i fs. i < length (parseMapCsv csv) \<and> fs = splitComma (splitLines (trim csv) ! Suc i) \<longrightarrow>
      spec_gapY (parseMapCsv csv ! i) = jmul (toNumber (field fs 0)) (Fin CANVAS_HEIGHT) \<and>
      spec_gapH (parseMapCsv csv ! i) = jmul (toNumber (field fs 1)) (Fin CANVAS_HEIGHT) \<and>
      spec_timeMs (parseMapCsv csv ! i) = jmul (toNumber (field fs 2)) (Fin 1000) \<and>
      (spec_gapY (parseMapCsv csv ! i) = NaN \<longleftrightarrow>
         length fs \<le> 0 \<or> (trim (fs ! 0) \<noteq> [] \<and> strNumericLiteral (trim (fs ! 0)) = None)) \<and>
      (spec_gapH (parseMapCsv csv ! i) = NaN \<longleftrightarrow>
         length fs \<le> 1 \<or> (trim (fs ! 1) \<noteq> [] \<and> strNumericLiteral (trim (fs ! 1)) = None)) \<and>
      (spec_timeMs (parseMapCsv csv ! i) = NaN \<longleftrightarrow>
         length fs \<le> 2 \<or> (trim (fs ! 2) \<noteq> [] \<and> strNumericLiteral (trim (fs ! 2)) = None)) \<and>
      (0 < length fs \<and> trim (fs ! 0) = [] \<longrightarrow> spec_gapY (parseMapCsv csv ! i) = Fin 0) \<and>
      (1 < length fs \<and> trim (fs ! 1) = [] \<longrightarrow> spec_gapH (parseMapCsv csv ! i) = Fin 0) \<and>
      (2 < length fs \<and> trim (fs ! 2) = [] \<longrightarrow> spec_timeMs (parseMapCsv csv ! i) = Fin 0))"
proof (intro conjI allI impI)
  show "length (parseMapCsv csv) = length (splitLines (trim csv)) - 1"
    by (rule length_parseMapCsv)
next
  fix i fs
  assume a: "i < length (parseMapCsv csv) \<and> fs = splitComma (splitLines (trim csv) ! Suc i)"
  then have r: "parseMapCsv csv ! i = parseLine (splitLines (trim csv) ! Suc i)"
    by (simp add: nth_parseMapCsv)
  from a have fs: "splitComma (splitLines (trim csv) ! Suc i) = fs" by simp
  have c: "(CANVAS_HEIGHT :: rat) \<noteq> 0" "(1000 :: rat) \<noteq> 0" by simp_all
  show y: "spec_gapY (parseMapCsv csv ! i) = jmul (toNumber (field fs 0)) (Fin CANVAS_HEIGHT)"
    by (simp add: r parseLine_def Let_def fs)
  show h: "spec_gapH (parseMapCsv csv ! i) = jmul (toNumber (field fs 1)) (Fin CANVAS_HEIGHT)"
    by (simp add: r parseLine_def Let_def fs)
  show t: "spec_timeMs (parseMapCsv csv ! i) = jmul (toNumber (field fs 2)) (Fin 1000)"
    by (simp add: r parseLine_def Let_def fs)
  show "spec_gapY (parseMapCsv csv ! i) = NaN \<longleftrightarrow>
         length fs \<le> 0 \<or> (trim (fs ! 0) \<noteq> [] \<and> strNumericLiteral (trim (fs ! 0)) = None)"
    by (simp only: y jmul_Fin_iff[OF c(1)] toNumber_NaN_iff)
  show "spec_gapH (parseMapCsv csv ! i) = NaN \<longleftrightarrow>
         length fs \<le> 1 \<or> (trim (fs ! 1) \<noteq> [] \<and> strNumericLiteral (trim (fs ! 1)) = None)"
    by (simp only: h jmul_Fin_iff[OF c(1)] toNumber_NaN_iff)
  show "spec_timeMs (parseMapCsv csv ! i) = NaN \<longleftrightarrow>
         length fs \<le> 2 \<or> (trim (fs ! 2) \<noteq> [] \<and> strNumericLiteral (trim (fs ! 2)) = None)"
    by (simp only: t jmul_Fin_iff[OF c(2)] toNumber_NaN_iff)
  {
    assume "0 < length fs \<and> trim (fs ! 0) = []"
    then show "spec_gapY (parseMapCsv csv ! i) = Fin 0" by (simp add: y toNumber_blank)
  }
  {
    assume "1 < length fs \<and> trim (fs ! 1) = []"
    then show "spec_gapH (parseMapCsv csv ! i) = Fin 0" by (simp add: h toNumber_blank)
  }
  {
    assume "2 < length fs \<and> trim (fs ! 2) = []"
    then show "spec_timeMs (parseMapCsv csv ! i) = Fin 0" by (simp add: t toNumber_blank)
  }
qed

lemma sample_lines:
  "splitLines (trim sampleCsv) = [''gap_y,gap_height,time'', ''0.5,0.25,2'', ''abc,0.3'']"
  by code_simp

lemma sample_fields:
  "splitComma ''0.5,0.25,2'' = [''0.5'', ''0.25'', ''2''] \<and>
   splitComma ''abc,0.3'' = [''abc'', ''0.3'']"
  by code_simp

text \<open>
  The sample schedule has a header and two rows; the second row has a first field that
  is no number and no third field.
\<close>

theorem schedule_parsing_witness:
  "splitLines (trim sampleCsv) = [''gap_y,gap_height,time'', ''0.5,0.25,2'', ''abc,0.3''] \<and>
   length (parseMapCsv sampleCsv) = 2 \<and>
   spec_gapY (parseMapCsv sampleCsv ! 0) = Fin 200 \<and>
   spec_gapH (parseMapCsv sampleCsv ! 0) = Fin 100 \<and>
   spec_timeMs (parseMapCsv sampleCsv ! 0) = Fin 2000 \<and>
   spec_gapY (parseMapCsv sampleCsv ! 1) = NaN \<and>
   spec_gapH (parseMapCsv sampleCsv ! 1) = Fin 120 \<and>
   spec_timeMs (parseMapCsv sampleCsv ! 1) = NaN"
proof -
  note th = schedule_parsing[of sampleCsv]
  from th have len: "length (parseMapCsv sampleCsv) = 2"
    by (simp add: sample_lines)
  from th have row:
    "i < length (parseMapCsv sampleCsv) \<Longrightarrow>
     fs = splitComma (splitLines (trim sampleCsv) ! Suc i) \<Longrightarrow>
      spec_gapY (parseMapCsv sampleCsv ! i) = jmul (toNumber (field fs 0)) (Fin CANVAS_HEIGHT) \<and>
      spec_gapH (parseMapCsv sampleCsv ! i) = jmul (toNumber (field fs 1)) (Fin CANVAS_HEIGHT) \<and>
      spec_timeMs (parseMapCsv sampleCsv ! i) = jmul (toNumber (field fs 2)) (Fin 1000)" for i fs
    by blast
  have r0: "spec_gapY (parseMapCsv sampleCsv ! 0) = Fin 200 \<and>
            spec_gapH (parseMapCsv sampleCsv ! 0) = Fin 100 \<and>
            spec_timeMs (parseMapCsv sampleCsv ! 0) = Fin 2000"
    using row[of 0 "[''0.5'', ''0.25'', ''2'']"] len sample_fields
    by (simp add: sample_lines toNumber_def field_def Number_examples)
  have r1: "spec_gapY (parseMapCsv sampleCsv ! 1) = NaN \<and>
            spec_gapH (parseMapCsv sampleCsv ! 1) = Fin 120 \<and>
            spec_timeMs (parseMapCsv sampleCsv ! 1) = NaN"
    using row[of 1 "[''abc'', ''0.3'']"] len sample_fields
    by (simp add: sample_lines toNumber_def field_def Number_examples)
  from sample_lines len r0 r1 show ?thesis by blast
qed

lemma blank_lines: "splitLines (trim blankCsv) = [''gap_y,gap_height,time'', '',,'']"
  by code_simp

lemma blank_fields: "splitComma '',,'' = [[], [], []]"
  by code_simp

text \<open>
  The claim as it stands, that a malformed numeric field yields \<open>NaN\<close>, fails for the
  row \<^verbatim>\<open>,,\<close>: its three fields are empty, and the three values are \<open>0\<close>.
\<close>

theorem blank_field_counterexample:
  "splitLines (trim blankCsv) = [''gap_y,gap_height,time'', '',,''] \<and>
   splitComma '',,'' = [[], [], []] \<and>
   parseMapCsv blankCsv = [\<lparr>spec_gapY = Fin 0, spec_gapH = Fin 0, spec_timeMs = Fin 0\<rparr>] \<and>
   spec_gapY (parseMapCsv blankCsv ! 0) \<noteq> NaN \<and>
   spec_gapH (parseMapCsv blankCsv ! 0) \<noteq> NaN \<and>
   spec_timeMs (parseMapCsv blankCsv ! 0) \<noteq> NaN"
proof -
  have p: "parseMapCsv blankCsv = [\<lparr>spec_gapY = Fin 0, spec_gapH = Fin 0, spec_timeMs = Fin 0\<rparr>]"
    by (simp add: parseMapCsv_def blank_lines parseLine_def blank_fields Let_def field_def
        toNumber_def Number_examples)
  with blank_lines blank_fields show ?thesis by simp
qed

end
